theory Spec2Isabelle
  imports Main
begin

section \<open>Data model of \<open>lib/acme/certs.js\<close>\<close>

text \<open>
  The module orchestrates certificate renewal: \<open>ensureAcme\<close> (one-time CA client
  initialisation), \<open>getAcmeAccount\<close>, \<open>validateDomain\<close>, \<open>acquireCert\<close> (the renewal
  coordinator) and \<open>getCertificate\<close> (the freshness dispatcher). Everything it talks to
  (Redis, the record store, the lock library, DNS, the CA client, key and CSR generation,
  the X.509 parser) lives outside the module; those collaborators are parameters of the
  model, collected in the record \<open>env\<close> below.
\<close>

type_synonym pem = string
type_synonym jwk = string

text \<open>
  Errors. The module creates three errors carrying a \<open>code\<close>; a property read on
  \<open>null\<close> raises a \<open>TypeError\<close>; every rejection of a collaborator is opaque to the
  module and carries the collaborator's own description.
\<close>

datatype error =
    InvalidDomain
  | CaaMismatch string
  | MissingCertificate
  | TypeError
  | Opaque string

fun code :: "error \<Rightarrow> string option" where
  "code InvalidDomain = Some ''invalid_domain''"
| "code (CaaMismatch _) = Some ''caa_mismatch''"
| "code MissingCertificate = Some ''missing_certificate''"
| "code TypeError = None"
| "code (Opaque _) = None"

fun responseCode :: "error \<Rightarrow> nat option" where
  "responseCode InvalidDomain = Some 400"
| "responseCode (CaaMismatch _) = Some 403"
| "responseCode MissingCertificate = Some 404"
| "responseCode TypeError = None"
| "responseCode (Opaque _) = None"

text \<open>The certificate record of the store; dates are milliseconds since the epoch.\<close>

record certificateData =
  rec_id :: nat
  servername :: string
  privateKey :: "pem option"
  cert :: "pem option"
  ca :: "pem list"
  validFrom :: "int option"
  expires :: "int option"
  altNames :: "string list"
  issuer :: "string option"
  lastCheck :: "int option"
  status :: string

text \<open>What \<open>acme.certificates.create\<close> resolves with: \<open>{cert, chain}\<close>.\<close>

record acme_cert =
  acme_cert_cert :: "pem option"
  acme_cert_chain :: "pem list option"

text \<open>What \<open>Certificate.fromPEM\<close> returns, as far as the module reads it.\<close>

record parsed_cert =
  parsed_validFrom :: int
  parsed_validTo :: int
  parsed_dnsNames :: "string list"
  parsed_issuer_commonName :: "string option"

text \<open>The \<open>updates\<close> object handed to \<open>certHandler.update\<close>.\<close>

record updates =
  upd_cert :: "pem option"
  upd_ca :: "pem list"
  upd_validFrom :: int
  upd_expires :: int
  upd_altNames :: "string list"
  upd_issuer :: "string option"
  upd_lastCheck :: int
  upd_status :: string

record acmeOptions =
  opt_key :: string
  opt_directoryUrl :: string
  opt_email :: string
  opt_keyBits :: nat
  opt_keyExponent :: nat

text \<open>The value stored under \<open>acme:account:<key>\<close> in the settings collection.\<close>

record acme_account =
  account_key :: pem
  account_handle :: string

record settings_doc =
  settings_value :: "acme_account option"

text \<open>A CAA answer of the resolver; \<open>issue\<close> is absent on \<open>iodef\<close>/\<open>issuewild\<close> entries.\<close>

record caa_record =
  critical :: int
  issue :: "string option"

type_synonym lock = nat

text \<open>JavaScript truthiness of an optional string: \<open>undefined\<close>, \<open>null\<close> and \<open>''\<close> are falsy.\<close>

fun truthy :: "string option \<Rightarrow> bool" where
  "truthy None = False"
| "truthy (Some s) = (s \<noteq> [])"

text \<open>
  \<open>a > b\<close> on an optional date against a date: with \<open>undefined\<close> on the left the
  comparison is on \<open>NaN\<close> and yields \<open>false\<close>.
\<close>

fun date_gt :: "int option \<Rightarrow> int \<Rightarrow> bool" where
  "date_gt None t = False"
| "date_gt (Some d) t = (d > t)"

section \<open>Observable effects and module state\<close>

datatype level = Info | Err

datatype event =
    RedisExists string
  | RedisSetExpire string nat
  | JoiValidate string
  | ResolveCaa string
  | WaitAcquireLock string int int
  | ReleaseLock lock
  | GetRecordByServername string
  | GetRecordById nat
  | ResetPrivateKey nat
  | CsrCreate jwk string
  | AcmeInit string
  | SettingsFindOne string
  | GenerateKey nat nat
  | AccountsCreate string jwk
  | SettingsInsertOne string
  | CertificatesCreate string
  | CertUpdate nat updates
  | Log level string

text \<open>
  A promise created by \<open>new Promise\<close> in \<open>ensureAcme\<close>: pending (\<open>None\<close>) or settled
  with \<open>resolve(true)\<close> / \<open>reject(err)\<close>. Settling a settled promise changes nothing.
\<close>

type_synonym promise = "(error + bool) option"

text \<open>
  The module-level variables \<open>acmeInitialized\<close>, \<open>acmeInitializing\<close> and
  \<open>acmeInitPending\<close> (a list of promise handles), the promises handed out to queued
  callers, and the trace of collaborator calls and log lines, oldest first. The lazily
  built \<open>certHandler\<close> and \<open>getLock\<close>/\<open>releaseLock\<close> wrappers are constructed
  before their first use and have no effect of their own; they are not state here.
\<close>

record pstate =
  acmeInitialized :: bool
  acmeInitializing :: bool
  acmeInitPending :: "nat list"
  promises :: "promise list"
  trace :: "event list"

definition initial :: pstate where
  "initial = \<lparr>acmeInitialized = False, acmeInitializing = False, acmeInitPending = [],
     promises = [], trace = []\<rparr>"

text \<open>
  An asynchronous function either returns, throws, or never settles (\<open>Hang\<close>: it awaits
  a promise that nothing in this run settles).
\<close>

datatype 'a outcome = Return 'a | Throw error | Hang

type_synonym 'a io = "pstate \<Rightarrow> 'a outcome \<times> pstate"

definition ret :: "'a \<Rightarrow> 'a io" where
  "ret x s = (Return x, s)"

definition throw :: "error \<Rightarrow> 'a io" where
  "throw e s = (Throw e, s)"

definition emit :: "event \<Rightarrow> pstate \<Rightarrow> pstate" where
  "emit ev s = s\<lparr>trace := trace s @ [ev]\<rparr>"

definition log :: "level \<Rightarrow> string \<Rightarrow> unit io" where
  "log l msg s = (Return (), emit (Log l msg) s)"

text \<open>
  \<open>await f(args)\<close> on a collaborator: the call is recorded, and the collaborator's
  answer is either a value or a rejection, which is thrown as an opaque error.
\<close>

definition call :: "event \<Rightarrow> string + 'a \<Rightarrow> 'a io" where
  "call ev r s = (case r of Inl f \<Rightarrow> (Throw (Opaque f), emit ev s) | Inr x \<Rightarrow> (Return x, emit ev s))"

text \<open>A synchronous library function that may throw (\<open>pem2jwk\<close>, \<open>Certificate.fromPEM\<close>).\<close>

definition pure_call :: "string + 'a \<Rightarrow> 'a io" where
  "pure_call r s = (case r of Inl f \<Rightarrow> (Throw (Opaque f), s) | Inr x \<Rightarrow> (Return x, s))"

text \<open>
  \<open>io_try m f h\<close>: run \<open>m\<close>; on a value continue with \<open>f\<close> (outside the handler), on an
  exception run the handler \<open>h\<close>. Sequencing and \<open>try/catch\<close> are its instances.
\<close>

definition io_try :: "'a io \<Rightarrow> ('a \<Rightarrow> 'b io) \<Rightarrow> (error \<Rightarrow> 'b io) \<Rightarrow> 'b io" where
  "io_try m f h s =
     (case m s of
        (Return x, s') \<Rightarrow> f x s'
      | (Throw e, s') \<Rightarrow> h e s'
      | (Hang, s') \<Rightarrow> (Hang, s'))"

definition io_bind :: "'a io \<Rightarrow> ('a \<Rightarrow> 'b io) \<Rightarrow> 'b io" where
  "io_bind m f = io_try m f throw"

definition try_catch :: "'a io \<Rightarrow> (error \<Rightarrow> 'a io) \<Rightarrow> 'a io" where
  "try_catch m h = io_try m ret h"

text \<open>
  \<open>try { m } finally { fin }\<close> where \<open>fin\<close> neither returns nor throws (the module's
  two \<open>finally\<close> blocks swallow their own errors): \<open>fin\<close> runs after a value and after
  an exception, and the outcome of \<open>m\<close> stands. A body that never settles never reaches it.
\<close>

definition try_finally :: "'a io \<Rightarrow> unit io \<Rightarrow> 'a io" where
  "try_finally m fin s =
     (case m s of
        (Hang, s') \<Rightarrow> (Hang, s')
      | (r, s') \<Rightarrow> (case fin s' of (Hang, s'') \<Rightarrow> (Hang, s'') | (_, s'') \<Rightarrow> (r, s'')))"

section \<open>Collaborators\<close>

text \<open>
  The answers of the collaborators, one field per call site (so that two reads of the
  store may differ: another process may write between them), and the configuration.
  \<open>normalizeDomain\<close> (\<open>lib/tools\<close>) and the Joi domain check are not part of this module
  and stay parameters; \<open>normalizeDomain\<close> is also applied to \<open>undefined\<close>.
\<close>

record env =
  normalizeDomain :: "string option \<Rightarrow> string"
  joi_domain_ok :: "string \<Rightarrow> bool"
  config_caaDomains :: "string list"
  resolveCaa_is_function :: bool
  resolveCaa :: "string \<Rightarrow> string + caa_record list"
  redis_exists :: "string \<Rightarrow> string + bool"
  redis_set_expire :: "string \<Rightarrow> nat \<Rightarrow> string + unit"
  waitAcquireLock :: "string \<Rightarrow> string + lock"
  releaseLock :: "lock \<Rightarrow> string + unit"
  getRecord_lookup :: "string \<Rightarrow> string + certificateData option"
  getRecord_reload :: "nat \<Rightarrow> string + certificateData option"
  getRecord_updated :: "nat \<Rightarrow> string + certificateData option"
  now_fresh :: int
  now_stale :: int
  now_reload :: int
  now_update :: int
  resetPrivateKey :: "nat \<Rightarrow> string + pem"
  pem2jwk :: "pem \<Rightarrow> string + jwk"
  csr_create :: "jwk \<Rightarrow> string \<Rightarrow> string + string"
  acme_init :: "string \<Rightarrow> string + unit"
  settings_findOne :: "string \<Rightarrow> string + settings_doc option"
  generateKey :: "nat \<Rightarrow> nat \<Rightarrow> string + pem"
  accounts_create :: "string \<Rightarrow> jwk \<Rightarrow> string + string"
  settings_insertOne :: "string \<Rightarrow> acme_account \<Rightarrow> string + unit"
  certificates_create :: "string \<Rightarrow> string \<Rightarrow> acme_account \<Rightarrow> string + acme_cert option"
  fromPEM :: "pem \<Rightarrow> string + parsed_cert"
  certHandler_update :: "nat \<Rightarrow> updates \<Rightarrow> string + bool"

section \<open>Constants\<close>

definition RENEW_AFTER_REMAINING :: int where
  "RENEW_AFTER_REMAINING = 10000 + 30 * 24 * 3600 * 1000"

definition BLOCK_RENEW_AFTER_ERROR_TTL :: nat where
  "BLOCK_RENEW_AFTER_ERROR_TTL = 10"

section \<open>\<open>validateDomain\<close>\<close>

text \<open>\<open>String.prototype.split('.')\<close> and \<open>Array.prototype.join('.')\<close>.\<close>

fun js_split :: "string \<Rightarrow> string list" where
  "js_split [] = [[]]"
| "js_split (c # cs) =
     (if c = CHR ''.'' then [] # js_split cs
      else (case js_split cs of [] \<Rightarrow> [[c]] | p # ps \<Rightarrow> (c # p) # ps))"

fun js_join :: "string list \<Rightarrow> string" where
  "js_join [] = []"
| "js_join [p] = p"
| "js_join (p # q # ps) = p @ ''.'' @ js_join (q # ps)"

text \<open>
  \<open>caaRes.some(r => config.acme.caaDomains.includes(normalizeDomain(r && r.issue)))\<close>:
  the issuer is normalised, the configured list is taken as written.
\<close>

definition caa_some_listed :: "env \<Rightarrow> caa_record list \<Rightarrow> bool" where
  "caa_some_listed env caaRes =
     list_ex (\<lambda>r. normalizeDomain env (issue r) \<in> set (config_caaDomains env)) caaRes"

text \<open>\<open>config.acme.caaDomains.map(normalizeDomain).filter(d => d)\<close>.\<close>

definition caaDomains :: "env \<Rightarrow> string list" where
  "caaDomains env = filter (\<lambda>d. d \<noteq> []) (map (\<lambda>d. normalizeDomain env (Some d)) (config_caaDomains env))"

text \<open>
  The \<open>try { caaRes = await resolver.resolveCaa(subdomain) } catch { }\<close> of the loop:
  a rejection leaves \<open>caaRes\<close> undefined.
\<close>

definition resolve_caa :: "env \<Rightarrow> string \<Rightarrow> caa_record list option io" where
  "resolve_caa env subdomain =
     io_try (call (ResolveCaa subdomain) (resolveCaa env subdomain))
       (\<lambda>r. ret (Some r)) (\<lambda>e. ret None)"

text \<open>\<open>caaRes && caaRes.length\<close>.\<close>

fun caa_present :: "caa_record list option \<Rightarrow> bool" where
  "caa_present None = False"
| "caa_present (Some rs) = (rs \<noteq> [])"

text \<open>
  The loop \<open>for (let i = 0; i < parts.length - 1; i++)\<close> from index \<open>i\<close> on.
\<close>

function caa_loop :: "env \<Rightarrow> string \<Rightarrow> string list \<Rightarrow> nat \<Rightarrow> unit io" where
  "caa_loop env domain parts i s =
     (if int i < int (length parts) - 1 then
        (let subdomain = js_join (drop i parts) in
         case resolve_caa env subdomain s of
           (Return caaRes, s') \<Rightarrow>
             if caa_present caaRes \<and> \<not> caa_some_listed env (the caaRes) then
               (Throw (CaaMismatch subdomain), s')
             else if caa_present caaRes then
               log Info ''Found matching CAA record for %s (%s)'' s'
             else caa_loop env domain parts (Suc i) s'
         | (Throw e, s') \<Rightarrow> (Throw e, s')
         | (Hang, s') \<Rightarrow> (Hang, s'))
      else (Return (), s))"
  by pat_completeness auto
termination
  by (relation "measure (\<lambda>(env, domain, parts, i, s). length parts - i)") auto

declare caa_loop.simps [simp del]

definition validateDomain :: "env \<Rightarrow> string \<Rightarrow> bool io" where
  "validateDomain env domain =
     io_bind (\<lambda>s. (Return (joi_domain_ok env domain), emit (JoiValidate domain) s)) (\<lambda>ok.
       if \<not> ok then throw InvalidDomain
       else
         io_bind
           (if resolveCaa_is_function env \<and> caaDomains env \<noteq> []
            then caa_loop env domain (js_split domain) 0
            else ret ())
           (\<lambda>_. ret True))"

section \<open>\<open>ensureAcme\<close>\<close>

text \<open>
  \<open>entry.resolve(true)\<close> / \<open>entry.reject(err)\<close> on a queued entry: only a pending
  promise changes.
\<close>

definition settle :: "error + bool \<Rightarrow> nat \<Rightarrow> pstate \<Rightarrow> pstate" where
  "settle v p s =
     (if p < length (promises s) \<and> promises s ! p = None
      then s\<lparr>promises := (promises s)[p := Some v]\<rparr> else s)"

text \<open>
  \<open>ensureAcme\<close> runs in two synchronous pieces, split at \<open>await acme.init(...)\<close>.
  The first piece, up to the suspension: either the function is done, or it hands out a
  new pending promise and queues its handle, or it has called \<open>acme.init\<close> and waits.
\<close>

datatype entered = Done bool | Queued nat | Initializing

definition ensureAcme_enter :: "acmeOptions \<Rightarrow> pstate \<Rightarrow> entered \<times> pstate" where
  "ensureAcme_enter acmeOptions s =
     (if acmeInitialized s then (Done True, s)
      else if acmeInitializing s then
        (Queued (length (promises s)),
         s\<lparr>promises := promises s @ [None],
           acmeInitPending := acmeInitPending s @ [length (promises s)]\<rparr>)
      else (Initializing, emit (AcmeInit (opt_directoryUrl acmeOptions)) s))"

text \<open>
  The second piece, once \<open>acme.init\<close> has settled with \<open>r\<close>: the rest of the
  \<open>try\<close>, or the \<open>catch\<close>, and then the \<open>finally\<close>.
\<close>

definition ensureAcme_resume :: "string + unit \<Rightarrow> bool io" where
  "ensureAcme_resume r s =
     (case r of
        Inr _ \<Rightarrow>
          (let s1 = s\<lparr>acmeInitialized := True\<rparr>;
               s2 = fold (settle (Inr True)) (acmeInitPending s1) s1
           in (Return True, s2\<lparr>acmeInitializing := False\<rparr>))
      | Inl f \<Rightarrow>
          (let s1 = fold (settle (Inl (Opaque f))) (acmeInitPending s) s
           in (Throw (Opaque f), s1\<lparr>acmeInitializing := False\<rparr>)))"

text \<open>
  A call that runs alone: \<open>acme.init\<close> settles before anything else happens. A queued
  call awaits a promise that only another call of \<open>ensureAcme\<close> could settle.
\<close>

definition ensureAcme :: "env \<Rightarrow> acmeOptions \<Rightarrow> bool io" where
  "ensureAcme env acmeOptions s =
     (case ensureAcme_enter acmeOptions s of
        (Done b, s') \<Rightarrow> (Return b, s')
      | (Queued p, s') \<Rightarrow> (Hang, s')
      | (Initializing, s') \<Rightarrow> ensureAcme_resume (acme_init env (opt_directoryUrl acmeOptions)) s')"

subsection \<open>Interleaved callers of \<open>ensureAcme\<close>\<close>

text \<open>
  Several callers in one process: JavaScript runs each synchronous piece to its end, so
  an interleaving is a sequence of steps, each either a new call of \<open>ensureAcme\<close> or
  the settling of the \<open>acme.init\<close> some caller is waiting for. Callers are numbered in
  the order of their calls.
\<close>

datatype caller = AwaitsInit | AwaitsPromise nat | Settled "error + bool"

record sched =
  proc :: pstate
  callers :: "caller list"

datatype step = Call acmeOptions | InitSettles nat "string + unit"

fun sched_step :: "sched \<Rightarrow> step \<Rightarrow> sched" where
  "sched_step c (Call acmeOptions) =
     (case ensureAcme_enter acmeOptions (proc c) of
        (Done b, s') \<Rightarrow> \<lparr>proc = s', callers = callers c @ [Settled (Inr b)]\<rparr>
      | (Queued p, s') \<Rightarrow> \<lparr>proc = s', callers = callers c @ [AwaitsPromise p]\<rparr>
      | (Initializing, s') \<Rightarrow> \<lparr>proc = s', callers = callers c @ [AwaitsInit]\<rparr>)"
| "sched_step c (InitSettles k r) =
     (if k < length (callers c) \<and> callers c ! k = AwaitsInit then
        (case ensureAcme_resume r (proc c) of
           (Return b, s') \<Rightarrow> \<lparr>proc = s', callers = (callers c)[k := Settled (Inr b)]\<rparr>
         | (Throw e, s') \<Rightarrow> \<lparr>proc = s', callers = (callers c)[k := Settled (Inl e)]\<rparr>
         | (Hang, s') \<Rightarrow> \<lparr>proc = s', callers = callers c\<rparr>)
      else c)"

definition run :: "step list \<Rightarrow> sched" where
  "run steps = foldl sched_step \<lparr>proc = initial, callers = []\<rparr> steps"

text \<open>What caller \<open>k\<close> has got so far: nothing while it waits.\<close>

definition outcome_of :: "sched \<Rightarrow> nat \<Rightarrow> (error + bool) option" where
  "outcome_of c k =
     (if k < length (callers c) then
        (case callers c ! k of
           AwaitsInit \<Rightarrow> None
         | AwaitsPromise p \<Rightarrow> (if p < length (promises (proc c)) then promises (proc c) ! p else None)
         | Settled v \<Rightarrow> Some v)
      else None)"

text \<open>The number of \<open>acme.init\<close> calls under way.\<close>

definition inits_in_flight :: "sched \<Rightarrow> nat" where
  "inits_in_flight c = length (filter (\<lambda>k. k = AwaitsInit) (callers c))"

section \<open>\<open>getAcmeAccount\<close>\<close>

text \<open>
  The stored account if there is one (\<open>settingsValue && settingsValue.value\<close>),
  otherwise a new key, a new CA account and a new settings entry. The result is an
  object on every returning path; it is kept optional because the caller tests it.
\<close>

definition getAcmeAccount :: "env \<Rightarrow> acmeOptions \<Rightarrow> acme_account option io" where
  "getAcmeAccount env acmeOptions =
     io_bind (ensureAcme env acmeOptions) (\<lambda>_.
     let entryKey = ''acme:account:'' @ opt_key acmeOptions in
     io_bind (call (SettingsFindOne entryKey) (settings_findOne env entryKey)) (\<lambda>settingsValue.
     case (case settingsValue of None \<Rightarrow> None | Some d \<Rightarrow> settings_value d) of
       Some v \<Rightarrow> ret (Some v)
     | None \<Rightarrow>
         io_bind (log Info ''ACME account for %s not found, provisioning new one from %s'') (\<lambda>_.
         io_bind (call (GenerateKey (opt_keyBits acmeOptions) (opt_keyExponent acmeOptions))
                    (generateKey env (opt_keyBits acmeOptions) (opt_keyExponent acmeOptions))) (\<lambda>accountKey.
         io_bind (pure_call (pem2jwk env accountKey)) (\<lambda>jwkAccount.
         io_bind (log Info ''Generated Acme account key for %s'') (\<lambda>_.
         io_bind (call (AccountsCreate (opt_email acmeOptions) jwkAccount)
                    (accounts_create env (opt_email acmeOptions) jwkAccount)) (\<lambda>account.
         let value = \<lparr>account_key = accountKey, account_handle = account\<rparr> in
         io_bind (call (SettingsInsertOne entryKey) (settings_insertOne env entryKey value)) (\<lambda>r.
         io_bind (log Info ''ACME account provisioned for %s (%s)'') (\<lambda>_.
         ret (Some value))))))))))"

section \<open>\<open>acquireCert\<close>\<close>

text \<open>
  What \<open>acquireCert\<close> and \<open>getCertificate\<close> hand back: a record of the store (or
  \<open>null\<close> when the store finds none), the object the CA client resolved with (or its
  \<open>null\<close>/\<open>undefined\<close>), or \<open>false\<close>.
\<close>

datatype retval =
    Rec "certificateData option"
  | AcmeCert "acme_cert option"
  | JsFalse

text \<open>\<open>certificateData && certificateData.cert\<close> and \<open>!cert || !cert.cert\<close>.\<close>

fun has_cert :: "certificateData option \<Rightarrow> bool" where
  "has_cert None = False"
| "has_cert (Some r) = truthy (cert r)"

fun no_cert :: "acme_cert option \<Rightarrow> bool" where
  "no_cert None = True"
| "no_cert (Some c) = (\<not> truthy (acme_cert_cert c))"

text \<open>
  The inner \<open>try/catch\<close> of the handler: set the failsafe key with its expiry; a
  rejection is logged.
\<close>

definition set_failsafe :: "env \<Rightarrow> string \<Rightarrow> unit io" where
  "set_failsafe env domainSafeLockKey =
     try_catch
       (call (RedisSetExpire domainSafeLockKey BLOCK_RENEW_AFTER_ERROR_TTL)
          (redis_set_expire env domainSafeLockKey BLOCK_RENEW_AFTER_ERROR_TTL))
       (\<lambda>err. log Err ''Redis call failed key=%s domains=%s error=%s'')"

text \<open>
  The \<open>catch (err)\<close> block; \<open>certificateData\<close> is the variable as it stands when the
  exception arrives.
\<close>

definition acquireCert_catch ::
    "env \<Rightarrow> string \<Rightarrow> certificateData option \<Rightarrow> error \<Rightarrow> retval io" where
  "acquireCert_catch env domain certificateData err =
     io_bind (set_failsafe env (''d:lock:safe:'' @ domain)) (\<lambda>_.
     io_bind (log Err ''Failed to generate cert domains=%s error=%s'') (\<lambda>_.
     if has_cert certificateData then ret (Rec certificateData) else throw err))"

text \<open>The \<open>finally\<close> block.\<close>

definition acquireCert_finally :: "env \<Rightarrow> string \<Rightarrow> lock \<Rightarrow> unit io" where
  "acquireCert_finally env domain lock =
     try_catch (call (ReleaseLock lock) (releaseLock env lock))
       (\<lambda>err. log Err ''Failed to release lock for %s: %s'')"

text \<open>
  The \<open>try\<close> block after the reload, with \<open>certificateData\<close> the reloaded value.
  Reading \<open>.expires\<close> of \<open>null\<close> throws. The challenge responder
  \<open>AcmeChallenge.create\<close> and the account id computed for the log line are built
  without any call outside and are left out.
\<close>

definition acquireCert_issue ::
    "env \<Rightarrow> string \<Rightarrow> acmeOptions \<Rightarrow> certificateData option \<Rightarrow> retval io" where
  "acquireCert_issue env domain acmeOptions reloaded =
     (case reloaded of
        None \<Rightarrow> throw TypeError
      | Some certificateData \<Rightarrow>
          if date_gt (expires certificateData) (now_reload env + RENEW_AFTER_REMAINING) then
            ret (Rec (Some certificateData))
          else
            io_bind
              (if \<not> truthy (privateKey certificateData) then
                 io_bind (log Info ''Provision new private key for %s'') (\<lambda>_.
                 call (ResetPrivateKey (rec_id certificateData))
                   (resetPrivateKey env (rec_id certificateData)))
               else ret (the (privateKey certificateData))) (\<lambda>privateKey.
            io_bind (pure_call (pem2jwk env privateKey)) (\<lambda>jwkPrivateKey.
            io_bind (call (CsrCreate jwkPrivateKey domain) (csr_create env jwkPrivateKey domain)) (\<lambda>csr.
            io_bind (getAcmeAccount env acmeOptions) (\<lambda>acmeAccount.
            case acmeAccount of
              None \<Rightarrow>
                io_bind (log Info ''Skip certificate renwal for %s, acme account not found'') (\<lambda>_.
                ret JsFalse)
            | Some account \<Rightarrow>
                io_bind (pure_call (pem2jwk env (account_key account))) (\<lambda>jwkAccount.
                io_bind (log Info ''Generate ACME cert for %s (account=%s)'') (\<lambda>_.
                io_bind (call (CertificatesCreate domain)
                           (certificates_create env domain csr account)) (\<lambda>cert.
                if no_cert cert then
                  io_bind (log Err ''Failed to generate certificate for %s'') (\<lambda>_.
                  ret (AcmeCert cert))
                else
                  io_bind (log Info ''Received certificate from ACME for %s'') (\<lambda>_.
                  io_bind (pure_call (fromPEM env (the (acme_cert_cert (the cert))))) (\<lambda>parsed.
                  let updates =
                    \<lparr>upd_cert = acme_cert_cert (the cert),
                     upd_ca = (case acme_cert_chain (the cert) of None \<Rightarrow> [] | Some c \<Rightarrow> c),
                     upd_validFrom = parsed_validFrom parsed,
                     upd_expires = parsed_validTo parsed,
                     upd_altNames = parsed_dnsNames parsed,
                     upd_issuer = parsed_issuer_commonName parsed,
                     upd_lastCheck = now_update env,
                     upd_status = ''valid''\<rparr> in
                  io_bind (call (CertUpdate (rec_id certificateData) updates)
                             (certHandler_update env (rec_id certificateData) updates)) (\<lambda>updated.
                  if \<not> updated then
                    io_bind (log Err ''Failed to generate certificate for %s'') (\<lambda>_.
                    ret (AcmeCert cert))
                  else
                    io_bind (log Info ''Certificate successfully generated for %s (expires %s)'') (\<lambda>_.
                    io_bind (call (GetRecordById (rec_id certificateData))
                               (getRecord_updated env (rec_id certificateData))) (\<lambda>r.
                    ret (Rec r))))))))))))))"

text \<open>
  The whole \<open>try\<close> block. Its first statement assigns the reloaded record to the
  variable \<open>certificateData\<close>, which the \<open>catch\<close> block reads; so the block yields
  the variable's last value next to its outcome: the passed-in record if the reload
  itself throws, the reloaded value otherwise.
\<close>

definition acquireCert_try ::
    "env \<Rightarrow> string \<Rightarrow> acmeOptions \<Rightarrow> certificateData
      \<Rightarrow> pstate \<Rightarrow> (certificateData option \<times> retval outcome) \<times> pstate" where
  "acquireCert_try env domain acmeOptions certificateData s =
     (case call (GetRecordById (rec_id certificateData))
             (getRecord_reload env (rec_id certificateData)) s of
        (Return reloaded, s') \<Rightarrow>
          (case acquireCert_issue env domain acmeOptions reloaded s' of
             (r, s'') \<Rightarrow> ((reloaded, r), s''))
      | (Throw e, s') \<Rightarrow> ((Some certificateData, Throw e), s')
      | (Hang, s') \<Rightarrow> ((Some certificateData, Hang), s'))"

text \<open>\<open>try { ... } catch (err) { ... }\<close> of \<open>acquireCert\<close>.\<close>

definition acquireCert_try_catch ::
    "env \<Rightarrow> string \<Rightarrow> acmeOptions \<Rightarrow> certificateData \<Rightarrow> retval io" where
  "acquireCert_try_catch env domain acmeOptions certificateData s =
     (case acquireCert_try env domain acmeOptions certificateData s of
        ((held, Throw err), s') \<Rightarrow> acquireCert_catch env domain held err s'
      | ((held, r), s') \<Rightarrow> (r, s'))"

definition acquireCert :: "env \<Rightarrow> string \<Rightarrow> acmeOptions \<Rightarrow> certificateData \<Rightarrow> retval io" where
  "acquireCert env domain acmeOptions certificateData =
     (let domainSafeLockKey = ''d:lock:safe:'' @ domain;
          domainOpLockKey = ''d:lock:op:'' @ domain in
      io_bind (call (RedisExists domainSafeLockKey) (redis_exists env domainSafeLockKey)) (\<lambda>blocked.
      if blocked then
        io_bind (log Info ''Renewal blocked by failsafe lock for %s'') (\<lambda>_.
        ret (Rec (Some certificateData)))
      else
        io_try
          (io_bind (validateDomain env domain) (\<lambda>_.
           log Info ''Domain validation for %s passed''))
          (\<lambda>_.
            io_bind (call (WaitAcquireLock domainOpLockKey (10 * 60 * 1000) (3 * 60 * 1000))
                       (waitAcquireLock env domainOpLockKey)) (\<lambda>lock.
            try_finally
              (acquireCert_try_catch env domain acmeOptions certificateData)
              (acquireCert_finally env domain lock)))
          (\<lambda>err.
            io_bind (log Err ''Failed to validate domain %s: %s'') (\<lambda>_.
            ret (Rec (Some certificateData))))))"

section \<open>\<open>getCertificate\<close>\<close>

text \<open>
  A promise that is not awaited: \<open>acquireCert(...).catch(err => log.error(...))\<close>.
  The caller goes on whatever becomes of it. In this sequential model the detached work
  is run to its end on the spot, so its effects come before the caller's later ones in
  the trace; its outcome is dropped and its exception logged.
\<close>

definition detached :: "'a io \<Rightarrow> (error \<Rightarrow> unit io) \<Rightarrow> unit io" where
  "detached m h s =
     (case m s of
        (Throw e, s') \<Rightarrow> (Return (), snd (h e s'))
      | (_, s') \<Rightarrow> (Return (), s'))"

definition getCertificate :: "env \<Rightarrow> string \<Rightarrow> acmeOptions \<Rightarrow> retval io" where
  "getCertificate env domain0 acmeOptions =
     io_bind (ensureAcme env acmeOptions) (\<lambda>_.
     let domain = normalizeDomain env (Some domain0) in
     io_bind (call (GetRecordByServername domain) (getRecord_lookup env domain)) (\<lambda>found.
     case found of
       None \<Rightarrow> throw MissingCertificate
     | Some certificateData \<Rightarrow>
         if date_gt (expires certificateData) (now_fresh env + 30 * 24 * 3600 * 1000) then
           ret (Rec (Some certificateData))
         else if date_gt (expires certificateData) (now_stale env) then
           io_bind
             (detached (acquireCert env domain acmeOptions certificateData)
                (\<lambda>err. log Err ''Cert renewal error %s: %s'')) (\<lambda>_.
           ret (Rec (Some certificateData)))
         else acquireCert env domain acmeOptions certificateData))"

section \<open>Specification-level notions\<close>

text \<open>
  The CAA walk as the specification words it, to be compared with the loop of
  \<open>validateDomain\<close>. The names to ask are the label suffixes of the domain from the full
  name up to, but not including, the bare top-level label.
\<close>

fun label_suffixes :: "string list \<Rightarrow> string list" where
  "label_suffixes (l # l' # ls) = js_join (l # l' # ls) # label_suffixes (l' # ls)"
| "label_suffixes _ = []"

text \<open>
  How a walk ends: at a name whose non-empty record set lists an allowed issuer, at a name
  whose non-empty record set lists none, or with every name asked and no policy found.
\<close>

datatype walk = Listed string | Unlisted string | NoPolicy

text \<open>
  A resolution failure or an empty answer means no policy at this level and the walk goes
  on; the first non-empty answer decides. The result is the list of names asked and the
  way the walk ended.
\<close>

fun caa_walk_spec :: "env \<Rightarrow> string list \<Rightarrow> string list \<times> walk" where
  "caa_walk_spec env [] = ([], NoPolicy)"
| "caa_walk_spec env (n # ns) =
     (case resolveCaa env n of
        Inl _ \<Rightarrow> (case caa_walk_spec env ns of (q, w) \<Rightarrow> (n # q, w))
      | Inr rs \<Rightarrow>
          if rs = [] then (case caa_walk_spec env ns of (q, w) \<Rightarrow> (n # q, w))
          else if caa_some_listed env rs then ([n], Listed n)
          else ([n], Unlisted n))"

text \<open>What a walk amounts to as a run of the loop: its outcome and the calls it leaves in the trace.\<close>

fun walk_result :: "pstate \<Rightarrow> string list \<times> walk \<Rightarrow> unit outcome \<times> pstate" where
  "walk_result s (q, Unlisted n) =
     (Throw (CaaMismatch n), s\<lparr>trace := trace s @ map ResolveCaa q\<rparr>)"
| "walk_result s (q, Listed n) =
     (Return (),
      s\<lparr>trace := trace s @ map ResolveCaa q @ [Log Info ''Found matching CAA record for %s (%s)'']\<rparr>)"
| "walk_result s (q, NoPolicy) = (Return (), s\<lparr>trace := trace s @ map ResolveCaa q\<rparr>)"

text \<open>
  \<open>settles m Q E\<close>: started with \<open>acmeInitializing\<close> unset, \<open>m\<close> does not hang; a
  value it returns satisfies \<open>Q\<close>, an error it throws satisfies \<open>E\<close>, and
  \<open>acmeInitializing\<close> is unset afterwards.
\<close>

definition settles :: "'a io \<Rightarrow> ('a \<Rightarrow> bool) \<Rightarrow> (error \<Rightarrow> bool) \<Rightarrow> bool" where
  "settles m Q E =
     (\<forall>s. \<not> acmeInitializing s \<longrightarrow>
        (case m s of
           (Return x, s') \<Rightarrow> Q x \<and> \<not> acmeInitializing s'
         | (Throw e, s') \<Rightarrow> E e \<and> \<not> acmeInitializing s'
         | (Hang, s') \<Rightarrow> False))"

text \<open>An error without a \<open>code\<close>: opaque to the caller of the entry point.\<close>

abbreviation opaque :: "error \<Rightarrow> bool" where
  "opaque e \<equiv> code e = None"

text \<open>
  \<open>emits P m\<close>: whatever \<open>m\<close> does, it only appends to the trace, and every event
  it appends satisfies \<open>P\<close>. \<open>first_emit P m\<close>: it appends at least one event, and the
  first one satisfies \<open>P\<close>.
\<close>

definition emits :: "(event \<Rightarrow> bool) \<Rightarrow> 'a io \<Rightarrow> bool" where
  "emits P m = (\<forall>s. \<exists>evs. trace (snd (m s)) = trace s @ evs \<and> list_all P evs)"

definition first_emit :: "(event \<Rightarrow> bool) \<Rightarrow> 'a io \<Rightarrow> bool" where
  "first_emit P m = (\<forall>s. \<exists>ev evs. trace (snd (m s)) = trace s @ ev # evs \<and> P ev)"

text \<open>Any event but the setting of a failsafe key.\<close>

fun no_failsafe :: "event \<Rightarrow> bool" where
  "no_failsafe (RedisSetExpire k t) = False"
| "no_failsafe _ = True"

text \<open>
  The state right after the reload under the lock, seen from the state \<open>s\<close> that
  validation leaves: the log line, the lock and the reload have been added.
\<close>

definition reloaded_state :: "string \<Rightarrow> certificateData \<Rightarrow> pstate \<Rightarrow> pstate" where
  "reloaded_state domain certificateData s =
     emit (GetRecordById (rec_id certificateData))
       (emit (WaitAcquireLock (''d:lock:op:'' @ domain) 600000 180000)
         (emit (Log Info ''Domain validation for %s passed'') s))"



text \<open>
  The first thing the trace shows of a renewal that goes ahead after the reload: the
  log line of the key provisioning, or the call that builds the CSR, or, when the private
  key cannot be converted, the setting of the failsafe key by the \<open>catch\<close> block.
\<close>

definition first_renewal_event :: "env \<Rightarrow> string \<Rightarrow> certificateData \<Rightarrow> event" where
  "first_renewal_event env domain r =
     (if \<not> truthy (privateKey r) then Log Info ''Provision new private key for %s''
      else case pem2jwk env (the (privateKey r)) of
             Inl _ \<Rightarrow> RedisSetExpire (''d:lock:safe:'' @ domain) BLOCK_RENEW_AFTER_ERROR_TTL
           | Inr jwkPrivateKey \<Rightarrow> CsrCreate jwkPrivateKey domain)"



section \<open>Example collaborators\<close>

text \<open>
  A domain with an expired record that carries a certificate, and collaborators that all
  succeed: no failsafe key, no CAA allow-list, a free lock, a stored account, a CA that
  issues. The scenarios below change one answer at a time.
\<close>

definition ex_domain :: string where
  "ex_domain = ''a.b.example.com''"

definition ex_now :: int where
  "ex_now = 5000000000"

definition ex_rec :: certificateData where
  "ex_rec = \<lparr>rec_id = 7, servername = ''a.b.example.com'', privateKey = Some ''KEY'',
     cert = Some ''OLDCERT'', ca = [], validFrom = Some 0, expires = Some 1000,
     altNames = [''a.b.example.com''], issuer = Some ''CA'', lastCheck = Some 0,
     status = ''valid''\<rparr>"

definition ex_renewed :: certificateData where
  "ex_renewed = ex_rec\<lparr>cert := Some ''NEWCERT'', expires := Some 9000000000\<rparr>"

definition ex_pending :: certificateData where
  "ex_pending = ex_rec\<lparr>cert := None, status := ''pending''\<rparr>"

definition ex_opts :: acmeOptions where
  "ex_opts = \<lparr>opt_key = ''prod'', opt_directoryUrl = ''https://ca/dir'',
     opt_email = ''ops@example.com'', opt_keyBits = 2048, opt_keyExponent = 65537\<rparr>"

definition ex_acme_cert :: acme_cert where
  "ex_acme_cert = \<lparr>acme_cert_cert = Some ''NEWCERT'', acme_cert_chain = Some [''CHAIN'']\<rparr>"

definition ex_env :: env where
  "ex_env = \<lparr>
     normalizeDomain = (\<lambda>d. case d of None \<Rightarrow> [] | Some x \<Rightarrow> x),
     joi_domain_ok = (\<lambda>d. True),
     config_caaDomains = [],
     resolveCaa_is_function = True,
     resolveCaa = (\<lambda>n. Inr []),
     redis_exists = (\<lambda>k. Inr False),
     redis_set_expire = (\<lambda>k t. Inr ()),
     waitAcquireLock = (\<lambda>k. Inr 1),
     releaseLock = (\<lambda>l. Inr ()),
     getRecord_lookup = (\<lambda>n. Inr (Some ex_rec)),
     getRecord_reload = (\<lambda>i. Inr (Some ex_rec)),
     getRecord_updated = (\<lambda>i. Inr (Some ex_renewed)),
     now_fresh = ex_now, now_stale = ex_now, now_reload = ex_now, now_update = ex_now,
     resetPrivateKey = (\<lambda>i. Inr ''NEWKEY''),
     pem2jwk = (\<lambda>p. Inr p),
     csr_create = (\<lambda>k d. Inr ''CSR''),
     acme_init = (\<lambda>u. Inr ()),
     settings_findOne = (\<lambda>k. Inr (Some \<lparr>settings_value =
        Some \<lparr>account_key = ''ACCKEY'', account_handle = ''acct/1''\<rparr>\<rparr>)),
     generateKey = (\<lambda>b e. Inr ''ACCKEY''),
     accounts_create = (\<lambda>m k. Inr ''acct/1''),
     settings_insertOne = (\<lambda>k v. Inr ()),
     certificates_create = (\<lambda>d c a. Inr (Some ex_acme_cert)),
     fromPEM = (\<lambda>p. Inr \<lparr>parsed_validFrom = 5000000000, parsed_validTo = 9000000000,
        parsed_dnsNames = [''a.b.example.com''], parsed_issuer_commonName = Some ''CA''\<rparr>),
     certHandler_update = (\<lambda>i u. Inr True)\<rparr>"

text \<open>The failsafe key of the domain exists.\<close>

definition ex_env_cooldown :: env where
  "ex_env_cooldown = ex_env\<lparr>redis_exists := (\<lambda>k. Inr True)\<rparr>"


text \<open>The name is not a well-formed domain name.\<close>

definition ex_env_invalid :: env where
  "ex_env_invalid = ex_env\<lparr>joi_domain_ok := (\<lambda>d. False)\<rparr>"

text \<open>The lock is not obtained within the wait.\<close>

definition ex_env_lock_timeout :: env where
  "ex_env_lock_timeout = ex_env\<lparr>waitAcquireLock := (\<lambda>k. Inl ''lock wait timeout'')\<rparr>"

text \<open>Another process has renewed the record while this one waited for the lock.\<close>

definition ex_env_renewed :: env where
  "ex_env_renewed = ex_env\<lparr>getRecord_reload := (\<lambda>i. Inr (Some ex_renewed))\<rparr>"


text \<open>The record has gone from the store when it is reloaded under the lock.\<close>

definition ex_env_gone :: env where
  "ex_env_gone = ex_env\<lparr>getRecord_reload := (\<lambda>i. Inr None)\<rparr>"

text \<open>The CA issues, and the store reports that nothing was updated.\<close>

definition ex_env_update_fails :: env where
  "ex_env_update_fails = ex_env\<lparr>certHandler_update := (\<lambda>i u. Inr False)\<rparr>"

text \<open>
  An allow-list with one CA. CAA records exist at \<open>example.com\<close> only and name another
  CA; the two longer names do not resolve.
\<close>

definition ex_env_caa_other :: env where
  "ex_env_caa_other =
     ex_env\<lparr>config_caaDomains := [''letsencrypt.org''],
            resolveCaa := (\<lambda>n. if n = ''example.com''
                                then Inr [\<lparr>critical = 0, issue = Some ''x.org''\<rparr>]
                                else Inl ''ENODATA'')\<rparr>"

text \<open>The same allow-list; \<open>b.example.com\<close> names the allowed CA, \<open>example.com\<close> another.\<close>

definition ex_env_caa_listed :: env where
  "ex_env_caa_listed =
     ex_env\<lparr>config_caaDomains := [''letsencrypt.org''],
            resolveCaa := (\<lambda>n. if n = ''b.example.com''
                                then Inr [\<lparr>critical = 0, issue = Some ''letsencrypt.org''\<rparr>]
                                else if n = ''example.com''
                                then Inr [\<lparr>critical = 0, issue = Some ''x.org''\<rparr>]
                                else Inr [])\<rparr>"

text \<open>The same allow-list and no CAA record anywhere.\<close>

definition ex_env_caa_none :: env where
  "ex_env_caa_none = ex_env\<lparr>config_caaDomains := [''letsencrypt.org'']\<rparr>"

text \<open>
  A record that expires 30 days and 5 seconds from now: beyond the 30 days of
  \<open>getCertificate\<close>, within \<open>RENEW_AFTER_REMAINING\<close>. The store holds it and delivers
  it on the reload.
\<close>

definition ex_gap :: certificateData where
  "ex_gap = ex_rec\<lparr>expires := Some (ex_now + 30 * 24 * 3600 * 1000 + 5000)\<rparr>"

definition ex_env_gap :: env where
  "ex_env_gap =
     ex_env\<lparr>getRecord_lookup := (\<lambda>n. Inr (Some ex_gap)), getRecord_reload := (\<lambda>i. Inr (Some ex_gap))\<rparr>"


text \<open>
  The CA issues a certificate that is valid until a time before the old expiry; the store
  takes the update and delivers the updated record.
\<close>

definition ex_short :: certificateData where
  "ex_short = ex_rec\<lparr>cert := Some ''NEWCERT'', expires := Some 900\<rparr>"


section \<open>Basic facts about the building blocks\<close>

lemmas io_defs = ret_def throw_def log_def call_def pure_call_def io_try_def io_bind_def
  try_catch_def try_finally_def

text \<open>Unfolding everything, to run the model on the example collaborators.\<close>

lemmas ex_run_defs = validateDomain_def caaDomains_def acquireCert_def acquireCert_try_catch_def
  acquireCert_try_def acquireCert_issue_def acquireCert_catch_def acquireCert_finally_def
  set_failsafe_def getAcmeAccount_def ensureAcme_def ensureAcme_enter_def ensureAcme_resume_def
  getCertificate_def detached_def io_defs emit_def initial_def Let_def
  BLOCK_RENEW_AFTER_ERROR_TTL_def RENEW_AFTER_REMAINING_def
  ex_domain_def ex_now_def ex_rec_def ex_renewed_def ex_pending_def ex_opts_def ex_acme_cert_def
  ex_gap_def ex_short_def
  ex_env_def

lemma set_failsafe_eq:
  "set_failsafe env k s =
     (Return (),
      (case redis_set_expire env k BLOCK_RENEW_AFTER_ERROR_TTL of
         Inr _ \<Rightarrow> emit (RedisSetExpire k BLOCK_RENEW_AFTER_ERROR_TTL) s
       | Inl f \<Rightarrow> emit (Log Err ''Redis call failed key=%s domains=%s error=%s'')
                   (emit (RedisSetExpire k BLOCK_RENEW_AFTER_ERROR_TTL) s)))"
  by (simp add: set_failsafe_def io_defs split: sum.splits)

lemma acquireCert_finally_eq:
  "acquireCert_finally env domain lock s =
     (Return (),
      (case releaseLock env lock of
         Inr _ \<Rightarrow> emit (ReleaseLock lock) s
       | Inl f \<Rightarrow> emit (Log Err ''Failed to release lock for %s: %s'') (emit (ReleaseLock lock) s)))"
  by (simp add: acquireCert_finally_def io_defs split: sum.splits)

text \<open>
  With the failsafe key absent, the domain valid and the lock obtained, \<open>acquireCert\<close>
  is its \<open>try/catch/finally\<close> statement.
\<close>

lemma acquireCert_locked:
  assumes "redis_exists env (''d:lock:safe:'' @ domain) = Inr False"
    and "validateDomain env domain (emit (RedisExists (''d:lock:safe:'' @ domain)) s) = (Return ok, s1)"
    and "waitAcquireLock env (''d:lock:op:'' @ domain) = Inr lock"
  shows "acquireCert env domain acmeOptions certificateData s =
           try_finally (acquireCert_try_catch env domain acmeOptions certificateData)
             (acquireCert_finally env domain lock)
             (emit (WaitAcquireLock (''d:lock:op:'' @ domain) 600000 180000)
               (emit (Log Info ''Domain validation for %s passed'') s1))"
  using assms
  by (simp add: acquireCert_def ret_def throw_def log_def call_def io_try_def io_bind_def Let_def)

section \<open>The cooldown gate\<close>

text \<open>
  Claim C4. When the failsafe (cooldown) key of the domain exists, \<open>acquireCert\<close>
  returns the record it was given, unchanged, and the only things it has done are the
  existence check and one log line: no validation, no lock, no read of the store, no
  call to the CA.
\<close>

theorem acquireCert_cooldown:
  assumes "redis_exists env (''d:lock:safe:'' @ domain) = Inr True"
  shows "acquireCert env domain acmeOptions certificateData s =
           (Return (Rec (Some certificateData)),
            s\<lparr>trace := trace s @ [RedisExists (''d:lock:safe:'' @ domain),
                                   Log Info ''Renewal blocked by failsafe lock for %s'']\<rparr>)"
  using assms by (simp add: acquireCert_def io_defs emit_def Let_def)

theorem acquireCert_cooldown_witness:
  "redis_exists ex_env_cooldown (''d:lock:safe:'' @ ex_domain) = Inr True \<and>
   acquireCert ex_env_cooldown ex_domain ex_opts ex_rec initial =
     (Return (Rec (Some ex_rec)),
      initial\<lparr>trace := [RedisExists ''d:lock:safe:a.b.example.com'',
                           Log Info ''Renewal blocked by failsafe lock for %s'']\<rparr>)"
  using acquireCert_cooldown [of ex_env_cooldown ex_domain ex_opts ex_rec initial]
  by (simp add: ex_env_cooldown_def ex_env_def ex_domain_def initial_def)

section \<open>The CAA walk of \<open>validateDomain\<close>\<close>

text \<open>
  The loop of \<open>validateDomain\<close> from index \<open>i\<close> on is the specification's walk over
  the label suffixes of the remaining labels.
\<close>

lemma label_suffixes_drop:
  assumes "Suc i < length parts"
  shows "label_suffixes (drop i parts) = js_join (drop i parts) # label_suffixes (drop (Suc i) parts)"
proof -
  have 1: "drop i parts = parts ! i # drop (Suc i) parts"
    using assms by (simp add: Cons_nth_drop_Suc)
  have 2: "drop (Suc i) parts = parts ! Suc i # drop (Suc (Suc i)) parts"
    using assms by (simp add: Cons_nth_drop_Suc)
  have "label_suffixes (parts ! i # parts ! Suc i # drop (Suc (Suc i)) parts) =
          js_join (parts ! i # parts ! Suc i # drop (Suc (Suc i)) parts)
            # label_suffixes (parts ! Suc i # drop (Suc (Suc i)) parts)"
    by simp
  then show ?thesis using 1 2 by simp
qed

lemma label_suffixes_short:
  "\<not> Suc i < length parts \<Longrightarrow> label_suffixes (drop i parts) = []"
  by (cases "drop i parts"; cases "tl (drop i parts)")
     (auto simp: drop_Suc[symmetric] dest!: arg_cong[where f=length])

lemma resolve_caa_eq:
  "resolve_caa env n s =
     (Return (case resolveCaa env n of Inl _ \<Rightarrow> None | Inr rs \<Rightarrow> Some rs), emit (ResolveCaa n) s)"
  by (simp add: resolve_caa_def io_try_def call_def ret_def split: sum.splits)

lemma caa_loop_walk:
  "caa_loop env domain parts i s = walk_result s (caa_walk_spec env (label_suffixes (drop i parts)))"
proof (induction env domain parts i s rule: caa_loop.induct)
  case (1 env domain parts i s)
  show ?case
  proof (cases "int i < int (length parts) - 1")
    case False
    then have "\<not> Suc i < length parts" by simp
    then show ?thesis using False
      by (subst caa_loop.simps) (simp add: label_suffixes_short)
  next
    case True
    then have lt: "Suc i < length parts" by simp
    let ?sub = "js_join (drop i parts)"
    let ?res = "case resolveCaa env ?sub of Inl _ \<Rightarrow> None | Inr rs \<Rightarrow> Some rs"
    note IH = "1.IH"[OF True refl resolve_caa_eq[symmetric] refl]
    show ?thesis
    proof (cases "caa_present ?res")
      case False
      then have "caa_loop env domain parts i s = caa_loop env domain parts (Suc i) (emit (ResolveCaa ?sub) s)"
        using True by (subst caa_loop.simps) (simp add: resolve_caa_eq Let_def)
      also have "\<dots> = walk_result (emit (ResolveCaa ?sub) s)
                        (caa_walk_spec env (label_suffixes (drop (Suc i) parts)))"
        using IH False by simp
      finally show ?thesis using False
        by (cases "caa_walk_spec env (label_suffixes (drop (Suc i) parts))";
            cases "snd (caa_walk_spec env (label_suffixes (drop (Suc i) parts)))")
           (auto simp: label_suffixes_drop[OF lt] emit_def split: sum.splits)
    next
      case present: True
      then obtain rs where rs: "resolveCaa env ?sub = Inr rs" "rs \<noteq> []"
        by (cases "resolveCaa env ?sub") auto
      show ?thesis using True rs
        by (subst caa_loop.simps)
           (simp add: resolve_caa_eq Let_def label_suffixes_drop[OF lt] log_def emit_def)
    qed
  qed
qed

lemma caa_loop_walk_all:
  "caa_loop env domain parts 0 s = walk_result s (caa_walk_spec env (label_suffixes parts))"
  using caa_loop_walk[of env domain parts 0 s] by simp

lemma walk_result_trace:
  "\<exists>evs. snd (walk_result s w) = s\<lparr>trace := trace s @ evs\<rparr> \<and>
         (\<forall>ev\<in>set evs. (\<exists>n. ev = ResolveCaa n) \<or> (\<exists>l m. ev = Log l m))"
proof (cases w)
  case (Pair q e)
  show ?thesis
  proof (cases e)
    case (Listed n)
    then show ?thesis using Pair
      by (auto intro!: exI[of _ "map ResolveCaa q @ [Log Info ''Found matching CAA record for %s (%s)'']"])
  next
    case (Unlisted n)
    then show ?thesis using Pair by (auto intro!: exI[of _ "map ResolveCaa q"])
  next
    case NoPolicy
    then show ?thesis using Pair by (auto intro!: exI[of _ "map ResolveCaa q"])
  qed
qed

lemma walk_result_flag:
  "acmeInitializing (snd (walk_result s w)) = acmeInitializing s"
  "fst (walk_result s w) \<noteq> Hang"
  by (cases w; cases "snd w"; simp)+

lemma validateDomain_trace:
  assumes "validateDomain env domain s = (r, s')"
  shows "\<exists>evs. s' = s\<lparr>trace := trace s @ JoiValidate domain # evs\<rparr> \<and>
           (\<forall>ev\<in>set evs. (\<exists>n. ev = ResolveCaa n) \<or> (\<exists>l m. ev = Log l m))"
proof (cases "joi_domain_ok env domain \<and> resolveCaa_is_function env \<and> caaDomains env \<noteq> []")
  case False
  then show ?thesis using assms
    by (auto simp: validateDomain_def io_bind_def io_try_def ret_def throw_def emit_def
        split: if_splits)
next
  case True
  let ?s0 = "emit (JoiValidate domain) s"
  let ?w = "caa_walk_spec env (label_suffixes (js_split domain))"
  obtain evs where evs: "snd (walk_result ?s0 ?w) = ?s0\<lparr>trace := trace ?s0 @ evs\<rparr>"
    "\<forall>ev\<in>set evs. (\<exists>n. ev = ResolveCaa n) \<or> (\<exists>l m. ev = Log l m)"
    using walk_result_trace[of ?s0 ?w] by blast
  have "s' = snd (walk_result ?s0 ?w)"
    using assms True
    by (cases "walk_result ?s0 ?w"; cases "fst (walk_result ?s0 ?w)")
       (auto simp: validateDomain_def io_bind_def io_try_def ret_def throw_def caa_loop_walk_all)
  then show ?thesis using evs by (auto simp: emit_def)
qed

text \<open>
  Claim C7. With a well-formed name, a resolver that offers CAA lookups and a non-empty
  allow-list, \<open>validateDomain\<close> is the walk of the specification over the label
  suffixes of the domain, from the full name up to but not including the top-level
  label: a name that fails to resolve or has no record is passed over; the first name
  with records decides, with \<open>caa_mismatch\<close> if none of its issuers is listed and with
  success if one is; no name after the deciding one is asked; and a walk that finds no
  record succeeds. An issuer is listed when its normalised name is an entry of the
  configured list. The trace shows exactly the names that were asked.
\<close>

theorem validateDomain_caa_walk:
  assumes "joi_domain_ok env domain" and "resolveCaa_is_function env" and "caaDomains env \<noteq> []"
  shows "validateDomain env domain s =
     (case caa_walk_spec env (label_suffixes (js_split domain)) of
        (queried, Unlisted n) \<Rightarrow>
          (Throw (CaaMismatch n),
           s\<lparr>trace := trace s @ JoiValidate domain # map ResolveCaa queried\<rparr>)
      | (queried, Listed n) \<Rightarrow>
          (Return True,
           s\<lparr>trace := trace s @ JoiValidate domain # map ResolveCaa queried
                        @ [Log Info ''Found matching CAA record for %s (%s)'']\<rparr>)
      | (queried, NoPolicy) \<Rightarrow>
          (Return True,
           s\<lparr>trace := trace s @ JoiValidate domain # map ResolveCaa queried\<rparr>))"
  using assms
  by (cases "caa_walk_spec env (label_suffixes (js_split domain))";
      cases "snd (caa_walk_spec env (label_suffixes (js_split domain)))")
     (auto simp: validateDomain_def io_bind_def io_try_def ret_def throw_def
        caa_loop_walk_all emit_def)

theorem validateDomain_caa_walk_witness:
  "label_suffixes (js_split ex_domain) = [''a.b.example.com'', ''b.example.com'', ''example.com''] \<and>
   validateDomain ex_env_caa_other ex_domain initial =
     (Throw (CaaMismatch ''example.com''),
      initial\<lparr>trace := [JoiValidate ''a.b.example.com'', ResolveCaa ''a.b.example.com'',
                           ResolveCaa ''b.example.com'', ResolveCaa ''example.com'']\<rparr>) \<and>
   validateDomain ex_env_caa_listed ex_domain initial =
     (Return True,
      initial\<lparr>trace := [JoiValidate ''a.b.example.com'', ResolveCaa ''a.b.example.com'',
                           ResolveCaa ''b.example.com'',
                           Log Info ''Found matching CAA record for %s (%s)'']\<rparr>) \<and>
   validateDomain ex_env_caa_none ex_domain initial =
     (Return True,
      initial\<lparr>trace := [JoiValidate ''a.b.example.com'', ResolveCaa ''a.b.example.com'',
                           ResolveCaa ''b.example.com'', ResolveCaa ''example.com'']\<rparr>)"
proof -
  have sfx: "label_suffixes (js_split ex_domain) = [''a.b.example.com'', ''b.example.com'', ''example.com'']"
    by (simp add: ex_domain_def)
  have a: "joi_domain_ok ex_env_caa_other ex_domain" "resolveCaa_is_function ex_env_caa_other"
    "caaDomains ex_env_caa_other \<noteq> []"
    by (simp_all add: ex_env_caa_other_def ex_env_def caaDomains_def)
  have b: "joi_domain_ok ex_env_caa_listed ex_domain" "resolveCaa_is_function ex_env_caa_listed"
    "caaDomains ex_env_caa_listed \<noteq> []"
    by (simp_all add: ex_env_caa_listed_def ex_env_def caaDomains_def)
  have c: "joi_domain_ok ex_env_caa_none ex_domain" "resolveCaa_is_function ex_env_caa_none"
    "caaDomains ex_env_caa_none \<noteq> []"
    by (simp_all add: ex_env_caa_none_def ex_env_def caaDomains_def)
  have 1: "validateDomain ex_env_caa_other ex_domain initial =
     (Throw (CaaMismatch ''example.com''),
      initial\<lparr>trace := [JoiValidate ''a.b.example.com'', ResolveCaa ''a.b.example.com'',
                           ResolveCaa ''b.example.com'', ResolveCaa ''example.com'']\<rparr>)"
    using validateDomain_caa_walk [OF a, of initial]
    by (simp add: sfx) (simp add: ex_env_caa_other_def ex_env_def ex_domain_def initial_def
        caa_some_listed_def)
  have 2: "validateDomain ex_env_caa_listed ex_domain initial =
     (Return True,
      initial\<lparr>trace := [JoiValidate ''a.b.example.com'', ResolveCaa ''a.b.example.com'',
                           ResolveCaa ''b.example.com'',
                           Log Info ''Found matching CAA record for %s (%s)'']\<rparr>)"
    using validateDomain_caa_walk [OF b, of initial]
    by (simp add: sfx) (simp add: ex_env_caa_listed_def ex_env_def ex_domain_def initial_def
        caa_some_listed_def)
  have 3: "validateDomain ex_env_caa_none ex_domain initial =
     (Return True,
      initial\<lparr>trace := [JoiValidate ''a.b.example.com'', ResolveCaa ''a.b.example.com'',
                           ResolveCaa ''b.example.com'', ResolveCaa ''example.com'']\<rparr>)"
    using validateDomain_caa_walk [OF c, of initial]
    by (simp add: sfx) (simp add: ex_env_caa_none_def ex_env_def ex_domain_def initial_def)
  show ?thesis using sfx 1 2 3 by simp
qed

section \<open>Validation failures are absorbed\<close>

text \<open>
  Claim C9. When the failsafe key is absent and \<open>validateDomain\<close> fails, with whatever
  error, \<open>acquireCert\<close> logs the failure and returns the record it was given; the
  error does not leave \<open>acquireCert\<close>.
\<close>

theorem acquireCert_validation_absorbed:
  assumes "redis_exists env (''d:lock:safe:'' @ domain) = Inr False"
    and "validateDomain env domain (emit (RedisExists (''d:lock:safe:'' @ domain)) s) = (Throw e, s')"
  shows "acquireCert env domain acmeOptions certificateData s =
           (Return (Rec (Some certificateData)),
            emit (Log Err ''Failed to validate domain %s: %s'') s')"
  using assms by (simp add: acquireCert_def io_defs Let_def)

theorem acquireCert_validation_absorbed_witness:
  "redis_exists ex_env_invalid (''d:lock:safe:'' @ ex_domain) = Inr False \<and>
   validateDomain ex_env_invalid ex_domain (emit (RedisExists (''d:lock:safe:'' @ ex_domain)) initial) =
     (Throw InvalidDomain,
      emit (JoiValidate ex_domain) (emit (RedisExists (''d:lock:safe:'' @ ex_domain)) initial)) \<and>
   acquireCert ex_env_invalid ex_domain ex_opts ex_rec initial =
     (Return (Rec (Some ex_rec)),
      initial\<lparr>trace := [RedisExists ''d:lock:safe:a.b.example.com'', JoiValidate ''a.b.example.com'',
                           Log Err ''Failed to validate domain %s: %s'']\<rparr>)"
proof -
  have 1: "redis_exists ex_env_invalid (''d:lock:safe:'' @ ex_domain) = Inr False"
    by (simp add: ex_env_invalid_def ex_env_def)
  have 2: "validateDomain ex_env_invalid ex_domain (emit (RedisExists (''d:lock:safe:'' @ ex_domain)) initial) =
     (Throw InvalidDomain,
      emit (JoiValidate ex_domain) (emit (RedisExists (''d:lock:safe:'' @ ex_domain)) initial))"
    by (simp add: validateDomain_def ex_env_invalid_def ex_env_def io_defs)
  show ?thesis
    using acquireCert_validation_absorbed [OF 1 2, of ex_opts ex_rec] 1 2
    by (simp add: emit_def initial_def ex_domain_def)
qed

section \<open>Failure to obtain the lock\<close>

text \<open>
  Claim C8. When the lock is not obtained, \<open>acquireCert\<close> throws that failure. After
  validation it has done nothing but log and ask for the lock; in particular, nothing
  since its start has set the failsafe key or released a lock.
\<close>

theorem acquireCert_lock_failure:
  assumes "redis_exists env (''d:lock:safe:'' @ domain) = Inr False"
    and "validateDomain env domain (emit (RedisExists (''d:lock:safe:'' @ domain)) s) = (Return ok, s1)"
    and "waitAcquireLock env (''d:lock:op:'' @ domain) = Inl f"
  shows "acquireCert env domain acmeOptions certificateData s =
           (Throw (Opaque f),
            s1\<lparr>trace := trace s1 @
               [Log Info ''Domain validation for %s passed'',
                WaitAcquireLock (''d:lock:op:'' @ domain) 600000 180000]\<rparr>)
         \<and> (\<exists>evs. trace s1 = trace s @ RedisExists (''d:lock:safe:'' @ domain) # evs
                \<and> (\<forall>k t. RedisSetExpire k t \<notin> set evs)
                \<and> (\<forall>l. ReleaseLock l \<notin> set evs))"
proof
  show "acquireCert env domain acmeOptions certificateData s =
           (Throw (Opaque f),
            s1\<lparr>trace := trace s1 @
               [Log Info ''Domain validation for %s passed'',
                WaitAcquireLock (''d:lock:op:'' @ domain) 600000 180000]\<rparr>)"
    using assms
    by (simp add: acquireCert_def ret_def throw_def log_def call_def io_try_def io_bind_def
        Let_def emit_def)
  from validateDomain_trace[OF assms(2)] obtain evs where
    evs: "s1 = (emit (RedisExists (''d:lock:safe:'' @ domain)) s)
            \<lparr>trace := trace (emit (RedisExists (''d:lock:safe:'' @ domain)) s) @ JoiValidate domain # evs\<rparr>"
      "\<forall>ev\<in>set evs. (\<exists>n. ev = ResolveCaa n) \<or> (\<exists>l m. ev = Log l m)"
    by blast
  have "trace s1 = trace s @ RedisExists (''d:lock:safe:'' @ domain) # JoiValidate domain # evs"
    by (subst evs(1)) (simp add: emit_def)
  moreover have "\<forall>k t. RedisSetExpire k t \<notin> set (JoiValidate domain # evs)"
    using evs(2) by auto
  moreover have "\<forall>l. ReleaseLock l \<notin> set (JoiValidate domain # evs)"
    using evs(2) by auto
  ultimately show "\<exists>evs. trace s1 = trace s @ RedisExists (''d:lock:safe:'' @ domain) # evs
                \<and> (\<forall>k t. RedisSetExpire k t \<notin> set evs)
                \<and> (\<forall>l. ReleaseLock l \<notin> set evs)"
    by blast
qed

theorem acquireCert_lock_failure_witness:
  "waitAcquireLock ex_env_lock_timeout (''d:lock:op:'' @ ex_domain) = Inl ''lock wait timeout'' \<and>
   acquireCert ex_env_lock_timeout ex_domain ex_opts ex_rec initial =
     (Throw (Opaque ''lock wait timeout''),
      initial\<lparr>trace := [RedisExists ''d:lock:safe:a.b.example.com'', JoiValidate ''a.b.example.com'',
                Log Info ''Domain validation for %s passed'',
                WaitAcquireLock ''d:lock:op:a.b.example.com'' 600000 180000]\<rparr>)"
proof -
  have 1: "redis_exists ex_env_lock_timeout (''d:lock:safe:'' @ ex_domain) = Inr False"
    by (simp add: ex_env_lock_timeout_def ex_env_def)
  have 2: "validateDomain ex_env_lock_timeout ex_domain (emit (RedisExists (''d:lock:safe:'' @ ex_domain)) initial) =
     (Return True, emit (JoiValidate ex_domain) (emit (RedisExists (''d:lock:safe:'' @ ex_domain)) initial))"
    by (simp add: validateDomain_def caaDomains_def ex_env_lock_timeout_def ex_env_def io_defs)
  have 3: "waitAcquireLock ex_env_lock_timeout (''d:lock:op:'' @ ex_domain) = Inl ''lock wait timeout''"
    by (simp add: ex_env_lock_timeout_def ex_env_def)
  show ?thesis
    using acquireCert_lock_failure [OF 1 2 3, of ex_opts ex_rec] 3
    by (simp add: emit_def initial_def ex_domain_def)
qed

section \<open>What a run appends to the trace\<close>

lemma emitsD:
  "emits P m \<Longrightarrow> \<exists>evs. trace (snd (m s)) = trace s @ evs \<and> list_all P evs"
  by (simp add: emits_def)

lemma emits_mono: "emits P m \<Longrightarrow> (\<And>ev. P ev \<Longrightarrow> Q ev) \<Longrightarrow> emits Q m"
  unfolding emits_def list_all_iff by blast

lemma emits_ret: "emits P (ret x)"
  by (simp add: emits_def ret_def)

lemma emits_throw: "emits P (throw e)"
  by (simp add: emits_def throw_def)

lemma emits_log: "P (Log l msg) \<Longrightarrow> emits P (log l msg)"
  by (simp add: emits_def log_def emit_def)

lemma emits_call: "P ev \<Longrightarrow> emits P (call ev r)"
  by (cases r) (simp_all add: emits_def call_def emit_def)

lemma emits_pure_call: "emits P (pure_call r)"
  by (cases r) (simp_all add: emits_def pure_call_def)

lemma emits_try:
  assumes "emits P m" and "\<And>x. emits P (f x)" and "\<And>e. emits P (h e)"
  shows "emits P (io_try m f h)"
  unfolding emits_def
proof
  fix s :: pstate
  obtain r s' where m: "m s = (r, s')" by (cases "m s")
  from emitsD[OF assms(1), of s] m obtain evs where
    1: "trace s' = trace s @ evs" "list_all P evs" by auto
  show "\<exists>evs. trace (snd (io_try m f h s)) = trace s @ evs \<and> list_all P evs"
  proof (cases r)
    case (Return x)
    from emitsD[OF assms(2), of x s'] obtain evs' where
      "trace (snd (f x s')) = trace s' @ evs'" "list_all P evs'" by auto
    then show ?thesis using 1 m Return
      by (intro exI[of _ "evs @ evs'"]) (simp add: io_try_def)
  next
    case (Throw e)
    from emitsD[OF assms(3), of e s'] obtain evs' where
      "trace (snd (h e s')) = trace s' @ evs'" "list_all P evs'" by auto
    then show ?thesis using 1 m Throw
      by (intro exI[of _ "evs @ evs'"]) (simp add: io_try_def)
  next
    case Hang
    then show ?thesis using 1 m by (intro exI[of _ evs]) (simp add: io_try_def)
  qed
qed

lemma emits_bind: "emits P m \<Longrightarrow> (\<And>x. emits P (f x)) \<Longrightarrow> emits P (io_bind m f)"
  unfolding io_bind_def by (rule emits_try) (auto intro: emits_throw)

lemma emits_catch: "emits P m \<Longrightarrow> (\<And>e. emits P (h e)) \<Longrightarrow> emits P (try_catch m h)"
  unfolding try_catch_def by (rule emits_try) (auto intro: emits_ret)

lemma emits_finally:
  assumes "emits P m" and "emits P fin"
  shows "emits P (try_finally m fin)"
  unfolding emits_def
proof
  fix s :: pstate
  obtain r s' where m: "m s = (r, s')" by (cases "m s")
  obtain r' s'' where f: "fin s' = (r', s'')" by (cases "fin s'")
  from emitsD[OF assms(1), of s] m obtain evs where
    1: "trace s' = trace s @ evs" "list_all P evs" by auto
  from emitsD[OF assms(2), of s'] f obtain evs' where
    2: "trace s'' = trace s' @ evs'" "list_all P evs'" by auto
  show "\<exists>evs. trace (snd (try_finally m fin s)) = trace s @ evs \<and> list_all P evs"
  proof (cases r)
    case Hang
    then show ?thesis using 1 m by (intro exI[of _ evs]) (simp add: try_finally_def)
  qed (use 1 2 m f in \<open>intro exI[of _ "evs @ evs'"], cases r', simp_all add: try_finally_def\<close>)+
qed

lemma emits_detached:
  assumes "emits P m" and "\<And>e. emits P (h e)"
  shows "emits P (detached m h)"
  unfolding emits_def
proof
  fix s :: pstate
  obtain r s' where m: "m s = (r, s')" by (cases "m s")
  from emitsD[OF assms(1), of s] m obtain evs where
    1: "trace s' = trace s @ evs" "list_all P evs" by auto
  show "\<exists>evs. trace (snd (detached m h s)) = trace s @ evs \<and> list_all P evs"
  proof (cases r)
    case (Throw e)
    from emitsD[OF assms(2), of e s'] obtain evs' where
      "trace (snd (h e s')) = trace s' @ evs'" "list_all P evs'" by auto
    then show ?thesis using 1 m Throw
      by (intro exI[of _ "evs @ evs'"]) (simp add: detached_def)
  qed (use 1 m in \<open>intro exI[of _ evs], simp add: detached_def\<close>)+
qed

lemma trace_fold_settle [simp]: "trace (fold (settle v) ps s) = trace s"
  by (induction ps arbitrary: s) (auto simp: settle_def)

lemma emits_ensureAcme:
  "P (AcmeInit (opt_directoryUrl acmeOptions)) \<Longrightarrow> emits P (ensureAcme env acmeOptions)"
  unfolding emits_def
  by (auto simp: ensureAcme_def ensureAcme_enter_def ensureAcme_resume_def Let_def emit_def
      split: sum.splits)

lemma emits_getAcmeAccount:
  "emits no_failsafe (getAcmeAccount env acmeOptions)"
  unfolding getAcmeAccount_def Let_def
  by (auto split: option.splits
      intro!: emits_bind emits_ensureAcme emits_call emits_pure_call emits_log emits_ret)

lemma emits_validateDomain: "emits no_failsafe (validateDomain env domain)"
  unfolding emits_def
proof
  fix s :: pstate
  obtain r s' where v: "validateDomain env domain s = (r, s')"
    by (cases "validateDomain env domain s")
  from validateDomain_trace[OF v] obtain evs where
    "s' = s\<lparr>trace := trace s @ JoiValidate domain # evs\<rparr>"
    "\<forall>ev\<in>set evs. (\<exists>n. ev = ResolveCaa n) \<or> (\<exists>l m. ev = Log l m)" by blast
  then show "\<exists>evs. trace (snd (validateDomain env domain s)) = trace s @ evs \<and> list_all no_failsafe evs"
    using v by (intro exI[of _ "JoiValidate domain # evs"]) (auto simp: list_all_iff)
qed

lemma emits_set_failsafe: "emits (\<lambda>_. True) (set_failsafe env k)"
  unfolding set_failsafe_def by (intro emits_catch emits_call emits_log) simp_all

lemma emits_acquireCert_finally: "emits no_failsafe (acquireCert_finally env domain lock)"
  unfolding acquireCert_finally_def by (intro emits_catch emits_call emits_log) simp_all

lemma emits_acquireCert_catch: "emits (\<lambda>_. True) (acquireCert_catch env domain held err)"
  unfolding acquireCert_catch_def
  by (auto intro!: emits_bind emits_set_failsafe emits_log emits_ret emits_throw)

lemma emits_acquireCert_issue:
  "emits no_failsafe (acquireCert_issue env domain acmeOptions reloaded)"
  unfolding acquireCert_issue_def Let_def
  by (auto split: option.splits
      intro!: emits_bind emits_getAcmeAccount emits_call emits_pure_call emits_log emits_ret
        emits_throw)

subsection \<open>Runs of the try block that return\<close>









subsection \<open>Where a renewal starts\<close>

lemma first_emitD:
  "first_emit P m \<Longrightarrow> \<exists>ev evs. trace (snd (m s)) = trace s @ ev # evs \<and> P ev"
  by (simp add: first_emit_def)

lemma first_emit_call: "P ev \<Longrightarrow> first_emit P (call ev r)"
  by (cases r) (simp_all add: first_emit_def call_def emit_def)

lemma first_emit_log: "P (Log l msg) \<Longrightarrow> first_emit P (log l msg)"
  by (simp add: first_emit_def log_def emit_def)

lemma first_emit_try:
  assumes "first_emit P m" and "\<And>x. emits (\<lambda>_. True) (f x)" and "\<And>e. emits (\<lambda>_. True) (h e)"
  shows "first_emit P (io_try m f h)"
  unfolding first_emit_def
proof
  fix s :: pstate
  obtain r s' where m: "m s = (r, s')" by (cases "m s")
  from first_emitD[OF assms(1), of s] m obtain ev evs where
    1: "trace s' = trace s @ ev # evs" "P ev" by auto
  show "\<exists>ev evs. trace (snd (io_try m f h s)) = trace s @ ev # evs \<and> P ev"
  proof (cases r)
    case (Return x)
    from emitsD[OF assms(2), of x s'] obtain evs' where
      "trace (snd (f x s')) = trace s' @ evs'" by auto
    then show ?thesis using 1 m Return
      by (intro exI[of _ ev] exI[of _ "evs @ evs'"]) (simp add: io_try_def)
  next
    case (Throw e)
    from emitsD[OF assms(3), of e s'] obtain evs' where
      "trace (snd (h e s')) = trace s' @ evs'" by auto
    then show ?thesis using 1 m Throw
      by (intro exI[of _ ev] exI[of _ "evs @ evs'"]) (simp add: io_try_def)
  next
    case Hang
    then show ?thesis using 1 m by (intro exI[of _ ev] exI[of _ evs]) (simp add: io_try_def)
  qed
qed

lemma first_emit_bind:
  "first_emit P m \<Longrightarrow> (\<And>x. emits (\<lambda>_. True) (f x)) \<Longrightarrow> first_emit P (io_bind m f)"
  unfolding io_bind_def by (rule first_emit_try) (auto intro: emits_throw)

lemma first_emit_bind_pure:
  "r = Inr x \<Longrightarrow> first_emit P (k x) \<Longrightarrow> first_emit P (io_bind (pure_call r) k)"
  by (simp add: first_emit_def io_bind_def io_try_def pure_call_def)

lemma first_emit_bind_ret:
  "first_emit P (k x) \<Longrightarrow> first_emit P (io_bind (ret x) k)"
  by (simp add: first_emit_def io_bind_def io_try_def ret_def)

lemma first_emit_detached:
  assumes "first_emit P m" and "\<And>e. emits (\<lambda>_. True) (h e)"
  shows "first_emit P (detached m h)"
  unfolding first_emit_def
proof
  fix s :: pstate
  obtain r s' where m: "m s = (r, s')" by (cases "m s")
  from first_emitD[OF assms(1), of s] m obtain ev evs where
    1: "trace s' = trace s @ ev # evs" "P ev" by auto
  show "\<exists>ev evs. trace (snd (detached m h s)) = trace s @ ev # evs \<and> P ev"
  proof (cases r)
    case (Throw e)
    from emitsD[OF assms(2), of e s'] obtain evs' where
      "trace (snd (h e s')) = trace s' @ evs'" by auto
    then show ?thesis using 1 m Throw
      by (intro exI[of _ ev] exI[of _ "evs @ evs'"]) (simp add: detached_def)
  qed (use 1 m in \<open>intro exI[of _ ev] exI[of _ evs], simp add: detached_def\<close>)+
qed

lemmas emits_any = emits_mono[where Q = "\<lambda>_. True", OF _ TrueI]

lemma emits_acquireCert_try_catch:
  "emits (\<lambda>_. True) (acquireCert_try_catch env domain acmeOptions certificateData)"
  unfolding emits_def
proof
  fix s :: pstate
  let ?s2 = "emit (GetRecordById (rec_id certificateData)) s"
  show "\<exists>evs. trace (snd (acquireCert_try_catch env domain acmeOptions certificateData s)) = trace s @ evs
          \<and> list_all (\<lambda>_. True) evs"
  proof (cases "getRecord_reload env (rec_id certificateData)")
    case (Inl f)
    from emitsD[OF emits_acquireCert_catch, of env domain "Some certificateData" "Opaque f" ?s2]
    obtain evs where "trace (snd (acquireCert_catch env domain (Some certificateData) (Opaque f) ?s2))
       = trace ?s2 @ evs" by auto
    then show ?thesis using Inl
      by (intro exI[of _ "GetRecordById (rec_id certificateData) # evs"])
         (simp add: acquireCert_try_catch_def acquireCert_try_def call_def emit_def list_all_iff)
  next
    case (Inr reloaded)
    obtain r s3 where i: "acquireCert_issue env domain acmeOptions reloaded ?s2 = (r, s3)"
      by (cases "acquireCert_issue env domain acmeOptions reloaded ?s2")
    from emitsD[OF emits_acquireCert_issue, of env domain acmeOptions reloaded ?s2] i
    obtain evs where 1: "trace s3 = trace ?s2 @ evs" by auto
    show ?thesis
    proof (cases r)
      case (Throw e)
      from emitsD[OF emits_acquireCert_catch, of env domain reloaded e s3]
      obtain evs' where "trace (snd (acquireCert_catch env domain reloaded e s3)) = trace s3 @ evs'"
        by auto
      then show ?thesis using Inr i 1 Throw
        by (intro exI[of _ "GetRecordById (rec_id certificateData) # evs @ evs'"])
           (simp add: acquireCert_try_catch_def acquireCert_try_def call_def emit_def list_all_iff)
    qed (use Inr i 1 in \<open>intro exI[of _ "GetRecordById (rec_id certificateData) # evs"],
          simp add: acquireCert_try_catch_def acquireCert_try_def call_def emit_def list_all_iff\<close>)+
  qed
qed

lemma emits_acquireCert:
  "emits (\<lambda>_. True) (acquireCert env domain acmeOptions certificateData)"
  unfolding acquireCert_def Let_def
  by (auto intro!: emits_bind emits_try emits_call emits_log emits_ret emits_finally
        emits_acquireCert_try_catch emits_any[OF emits_validateDomain]
        emits_any[OF emits_acquireCert_finally])

lemma first_emit_acquireCert:
  "first_emit (\<lambda>ev. ev = RedisExists (''d:lock:safe:'' @ domain))
     (acquireCert env domain acmeOptions certificateData)"
  unfolding acquireCert_def Let_def
  apply (rule first_emit_bind)
   apply (rule first_emit_call, simp)
  apply (auto intro!: emits_bind emits_try emits_call emits_log emits_ret emits_finally
        emits_acquireCert_try_catch emits_any[OF emits_validateDomain]
        emits_any[OF emits_acquireCert_finally])
  done

text \<open>A renewal that goes ahead after the reload shows in the trace.\<close>

lemma acquireCert_issue_first_event:
  assumes "\<not> date_gt (expires r) (now_reload env + RENEW_AFTER_REMAINING)"
    and "truthy (privateKey r) \<longrightarrow> (\<exists>j. pem2jwk env (the (privateKey r)) = Inr j)"
  shows "first_emit (\<lambda>ev. ev = first_renewal_event env domain r)
           (acquireCert_issue env domain acmeOptions (Some r))"
proof (cases "truthy (privateKey r)")
  case False
  then show ?thesis using assms(1)
    unfolding acquireCert_issue_def Let_def first_renewal_event_def
    apply simp
    apply (rule first_emit_bind)
     apply (rule first_emit_bind)
      apply (rule first_emit_log, simp)
     apply (rule emits_call, simp)
    apply (auto split: option.splits
      intro!: emits_bind emits_any[OF emits_getAcmeAccount] emits_call emits_pure_call emits_log
        emits_ret emits_throw)
    done
next
  case True
  then obtain j where j: "pem2jwk env (the (privateKey r)) = Inr j" using assms(2) by blast
  show ?thesis using assms(1) True
    unfolding acquireCert_issue_def Let_def first_renewal_event_def
    apply (simp add: j)
    apply (rule first_emit_bind_ret)
    apply (rule first_emit_bind_pure[OF j])
    apply (rule first_emit_bind)
     apply (rule first_emit_call, simp)
    apply (auto split: option.splits
      intro!: emits_bind emits_any[OF emits_getAcmeAccount] emits_call emits_pure_call emits_log
        emits_ret emits_throw)
    done
qed

lemma acquireCert_renewal_starts:
  assumes "redis_exists env (''d:lock:safe:'' @ domain) = Inr False"
    and "validateDomain env domain (emit (RedisExists (''d:lock:safe:'' @ domain)) s) = (Return ok, s1)"
    and "waitAcquireLock env (''d:lock:op:'' @ domain) = Inr lock"
    and "getRecord_reload env (rec_id certificateData) = Inr (Some r)"
    and "\<not> date_gt (expires r) (now_reload env + RENEW_AFTER_REMAINING)"
  shows "\<exists>evs. trace (snd (acquireCert env domain acmeOptions certificateData s)) =
           trace (reloaded_state domain certificateData s1) @ first_renewal_event env domain r # evs"
proof -
  let ?sl = "emit (WaitAcquireLock (''d:lock:op:'' @ domain) 600000 180000)
               (emit (Log Info ''Domain validation for %s passed'') s1)"
  let ?s2 = "reloaded_state domain certificateData s1"
  let ?tc = "acquireCert_try_catch env domain acmeOptions certificateData"
  have s2: "?s2 = emit (GetRecordById (rec_id certificateData)) ?sl"
    by (simp add: reloaded_state_def)
  have tc: "\<exists>evs. trace (snd (?tc ?sl)) = trace ?s2 @ first_renewal_event env domain r # evs"
  proof (cases "truthy (privateKey r) \<and> (\<exists>f. pem2jwk env (the (privateKey r)) = Inl f)")
    case True
    then obtain f where f: "pem2jwk env (the (privateKey r)) = Inl f" and t: "truthy (privateKey r)"
      by blast
    have "acquireCert_issue env domain acmeOptions (Some r) ?s2 = (Throw (Opaque f), ?s2)"
      using assms(5) t f by (simp add: acquireCert_issue_def io_defs)
    then have "?tc ?sl = acquireCert_catch env domain (Some r) (Opaque f) ?s2"
      using assms(4) by (simp add: acquireCert_try_catch_def acquireCert_try_def call_def s2)
    then show ?thesis using t f
      by (simp add: acquireCert_catch_def set_failsafe_eq io_bind_def io_try_def log_def ret_def
          throw_def emit_def first_renewal_event_def split: sum.splits)
  next
    case False
    then have "truthy (privateKey r) \<longrightarrow> (\<exists>j. pem2jwk env (the (privateKey r)) = Inr j)"
      by (cases "pem2jwk env (the (privateKey r))") auto
    from first_emitD[OF acquireCert_issue_first_event[OF assms(5) this], of domain acmeOptions ?s2]
    obtain evs where
      1: "trace (snd (acquireCert_issue env domain acmeOptions (Some r) ?s2)) =
            trace ?s2 @ first_renewal_event env domain r # evs"
      by auto
    obtain res s3 where i: "acquireCert_issue env domain acmeOptions (Some r) ?s2 = (res, s3)"
      by (cases "acquireCert_issue env domain acmeOptions (Some r) ?s2")
    show ?thesis
    proof (cases res)
      case (Throw e)
      from emitsD[OF emits_acquireCert_catch, of env domain "Some r" e s3]
      obtain evs' where "trace (snd (acquireCert_catch env domain (Some r) e s3)) = trace s3 @ evs'"
        by auto
      then show ?thesis using assms(4) i 1 Throw
        by (intro exI[of _ "evs @ evs'"])
           (simp add: acquireCert_try_catch_def acquireCert_try_def call_def s2)
    qed (use assms(4) i 1 in \<open>intro exI[of _ evs],
          simp add: acquireCert_try_catch_def acquireCert_try_def call_def s2\<close>)+
  qed
  then obtain evs where evs: "trace (snd (?tc ?sl)) = trace ?s2 @ first_renewal_event env domain r # evs"
    by blast
  obtain res s3 where m: "?tc ?sl = (res, s3)" by (cases "?tc ?sl")
  have "\<exists>evs'. trace (snd (try_finally ?tc (acquireCert_finally env domain lock) ?sl)) = trace s3 @ evs'"
    using m by (cases res) (auto simp: try_finally_def acquireCert_finally_eq emit_def split: sum.splits)
  then obtain evs' where
    "trace (snd (try_finally ?tc (acquireCert_finally env domain lock) ?sl)) = trace s3 @ evs'"
    by blast
  then show ?thesis using evs m
    by (intro exI[of _ "evs @ evs'"]) (simp add: acquireCert_locked[OF assms(1-3)])
qed

lemma getCertificate_renewal_starts:
  assumes "ensureAcme env acmeOptions s = (Return b, s0)"
    and "getRecord_lookup env (normalizeDomain env (Some domain0)) = Inr (Some found)"
    and "\<not> date_gt (expires found) (now_fresh env + 30 * 24 * 3600 * 1000)"
  shows "\<exists>evs. trace (snd (getCertificate env domain0 acmeOptions s)) =
           trace s0 @ GetRecordByServername (normalizeDomain env (Some domain0))
             # RedisExists (''d:lock:safe:'' @ normalizeDomain env (Some domain0)) # evs"
proof -
  let ?d = "normalizeDomain env (Some domain0)"
  let ?s1 = "emit (GetRecordByServername ?d) s0"
  let ?P = "\<lambda>ev. ev = RedisExists (''d:lock:safe:'' @ ?d)"
  let ?X = "if date_gt (expires found) (now_stale env)
            then io_bind (detached (acquireCert env ?d acmeOptions found)
                            (\<lambda>err. log Err ''Cert renewal error %s: %s''))
                   (\<lambda>_. ret (Rec (Some found)))
            else acquireCert env ?d acmeOptions found"
  have eq: "getCertificate env domain0 acmeOptions s = ?X ?s1"
    using assms by (simp add: getCertificate_def io_bind_def io_try_def call_def Let_def)
  have "first_emit ?P ?X"
  proof (cases "date_gt (expires found) (now_stale env)")
    case True
    have "first_emit ?P (io_bind (detached (acquireCert env ?d acmeOptions found)
                            (\<lambda>err. log Err ''Cert renewal error %s: %s''))
                   (\<lambda>_. ret (Rec (Some found))))"
      by (rule first_emit_bind, rule first_emit_detached, rule first_emit_acquireCert,
          rule emits_log, rule TrueI, rule emits_ret)
    then show ?thesis using True by (simp only: if_True)
  next
    case False
    then show ?thesis using first_emit_acquireCert[of ?d env acmeOptions found]
      by (simp only: if_False)
  qed
  from first_emitD[OF this, of ?s1] show ?thesis
    unfolding eq by (auto simp: emit_def)
qed


section \<open>The reload under the lock\<close>

text \<open>
  Claim C6. Holding the lock, \<open>acquireCert\<close> reloads the record. If the reloaded record
  expires later than now plus \<open>RENEW_AFTER_REMAINING\<close>, that record is returned and the
  only further effect is the release of the lock: no key, CSR, account, CA or update
  step. If it does not, the renewal goes ahead: the trace continues with the first step
  of the renewal. So the threshold of the re-check is \<open>RENEW_AFTER_REMAINING\<close> and no
  other. \<open>getCertificate\<close>, for its part, returns the stored record at once if it
  expires later than now plus 30 days, and starts \<open>acquireCert\<close> if it does not: its
  threshold is the 30 days written out in it. \<open>RENEW_AFTER_REMAINING\<close> is strictly
  larger than these 30 days; the two thresholds are two constants.
\<close>

theorem acquireCert_already_renewed:
  assumes "redis_exists env (''d:lock:safe:'' @ domain) = Inr False"
    and "validateDomain env domain (emit (RedisExists (''d:lock:safe:'' @ domain)) s) = (Return ok, s1)"
    and "waitAcquireLock env (''d:lock:op:'' @ domain) = Inr lock"
    and "getRecord_reload env (rec_id certificateData) = Inr (Some reloaded)"
    and "ensureAcme env acmeOptions sd = (Return b, s0)"
    and "getRecord_lookup env (normalizeDomain env (Some domain0)) = Inr (Some found)"
  shows
    "(date_gt (expires reloaded) (now_reload env + RENEW_AFTER_REMAINING) \<longrightarrow>
        acquireCert env domain acmeOptions certificateData s =
           (Return (Rec (Some reloaded)),
            s1\<lparr>trace := trace s1 @
               [Log Info ''Domain validation for %s passed'',
                WaitAcquireLock (''d:lock:op:'' @ domain) 600000 180000,
                GetRecordById (rec_id certificateData),
                ReleaseLock lock] @
               (case releaseLock env lock of
                  Inl _ \<Rightarrow> [Log Err ''Failed to release lock for %s: %s'']
                | Inr _ \<Rightarrow> [])\<rparr>))
   \<and> (\<not> date_gt (expires reloaded) (now_reload env + RENEW_AFTER_REMAINING) \<longrightarrow>
        (\<exists>evs. trace (snd (acquireCert env domain acmeOptions certificateData s)) =
           trace s1 @
             [Log Info ''Domain validation for %s passed'',
              WaitAcquireLock (''d:lock:op:'' @ domain) 600000 180000,
              GetRecordById (rec_id certificateData),
              first_renewal_event env domain reloaded] @ evs))
   \<and> (date_gt (expires found) (now_fresh env + 30 * 24 * 3600 * 1000) \<longrightarrow>
        getCertificate env domain0 acmeOptions sd =
          (Return (Rec (Some found)),
           s0\<lparr>trace := trace s0 @ [GetRecordByServername (normalizeDomain env (Some domain0))]\<rparr>))
   \<and> (\<not> date_gt (expires found) (now_fresh env + 30 * 24 * 3600 * 1000) \<longrightarrow>
        (\<exists>evs. trace (snd (getCertificate env domain0 acmeOptions sd)) =
           trace s0 @
             [GetRecordByServername (normalizeDomain env (Some domain0)),
              RedisExists (''d:lock:safe:'' @ normalizeDomain env (Some domain0))] @ evs))
   \<and> 30 * 24 * 3600 * 1000 < RENEW_AFTER_REMAINING"
proof (intro conjI impI)
  assume "date_gt (expires reloaded) (now_reload env + RENEW_AFTER_REMAINING)"
  then show "acquireCert env domain acmeOptions certificateData s =
           (Return (Rec (Some reloaded)),
            s1\<lparr>trace := trace s1 @
               [Log Info ''Domain validation for %s passed'',
                WaitAcquireLock (''d:lock:op:'' @ domain) 600000 180000,
                GetRecordById (rec_id certificateData),
                ReleaseLock lock] @
               (case releaseLock env lock of
                  Inl _ \<Rightarrow> [Log Err ''Failed to release lock for %s: %s'']
                | Inr _ \<Rightarrow> [])\<rparr>)"
    using assms(4)
    by (simp add: acquireCert_locked[OF assms(1-3)] try_finally_def acquireCert_try_catch_def
        acquireCert_try_def acquireCert_issue_def acquireCert_finally_eq call_def ret_def emit_def
        split: sum.splits)
next
  assume "\<not> date_gt (expires reloaded) (now_reload env + RENEW_AFTER_REMAINING)"
  from acquireCert_renewal_starts[OF assms(1-4) this, of acmeOptions]
  show "\<exists>evs. trace (snd (acquireCert env domain acmeOptions certificateData s)) =
           trace s1 @
             [Log Info ''Domain validation for %s passed'',
              WaitAcquireLock (''d:lock:op:'' @ domain) 600000 180000,
              GetRecordById (rec_id certificateData),
              first_renewal_event env domain reloaded] @ evs"
    by (simp add: reloaded_state_def emit_def)
next
  assume "date_gt (expires found) (now_fresh env + 30 * 24 * 3600 * 1000)"
  then show "getCertificate env domain0 acmeOptions sd =
          (Return (Rec (Some found)),
           s0\<lparr>trace := trace s0 @ [GetRecordByServername (normalizeDomain env (Some domain0))]\<rparr>)"
    using assms(5,6)
    by (simp add: getCertificate_def io_bind_def io_try_def call_def ret_def Let_def emit_def)
next
  assume "\<not> date_gt (expires found) (now_fresh env + 30 * 24 * 3600 * 1000)"
  from getCertificate_renewal_starts[OF assms(5,6) this]
  show "\<exists>evs. trace (snd (getCertificate env domain0 acmeOptions sd)) =
           trace s0 @
             [GetRecordByServername (normalizeDomain env (Some domain0)),
              RedisExists (''d:lock:safe:'' @ normalizeDomain env (Some domain0))] @ evs"
    by simp
next
  show "30 * 24 * 3600 * 1000 < RENEW_AFTER_REMAINING"
    by (simp add: RENEW_AFTER_REMAINING_def)
qed

text \<open>
  A record that expires 30 days and 5 seconds from now is fresh for \<open>getCertificate\<close>
  and due for renewal under the lock.
\<close>

theorem acquireCert_already_renewed_witness:
  "date_gt (expires ex_renewed) (now_reload ex_env_renewed + RENEW_AFTER_REMAINING) \<and>
   acquireCert ex_env_renewed ex_domain ex_opts ex_rec initial =
     (Return (Rec (Some ex_renewed)),
      initial\<lparr>trace := [RedisExists ''d:lock:safe:a.b.example.com'', JoiValidate ''a.b.example.com'',
                Log Info ''Domain validation for %s passed'',
                WaitAcquireLock ''d:lock:op:a.b.example.com'' 600000 180000,
                GetRecordById 7, ReleaseLock 1]\<rparr>) \<and>
   expires ex_gap = Some (ex_now + 30 * 24 * 3600 * 1000 + 5000) \<and>
   now_fresh ex_env_gap = ex_now \<and> now_reload ex_env_gap = ex_now \<and>
   getCertificate ex_env_gap ex_domain ex_opts initial =
     (Return (Rec (Some ex_gap)),
      initial\<lparr>acmeInitialized := True,
        trace := [AcmeInit ''https://ca/dir'', GetRecordByServername ''a.b.example.com'']\<rparr>) \<and>
   (\<exists>evs. trace (snd (acquireCert ex_env_gap ex_domain ex_opts ex_rec initial)) =
      [RedisExists ''d:lock:safe:a.b.example.com'', JoiValidate ''a.b.example.com'',
       Log Info ''Domain validation for %s passed'',
       WaitAcquireLock ''d:lock:op:a.b.example.com'' 600000 180000,
       GetRecordById 7, CsrCreate ''KEY'' ''a.b.example.com''] @ evs)"
proof -
  let ?s0 = "initial\<lparr>acmeInitialized := True, trace := [AcmeInit ''https://ca/dir'']\<rparr>"
  let ?s1 = "emit (JoiValidate ex_domain) (emit (RedisExists (''d:lock:safe:'' @ ex_domain)) initial)"
  have r1: "redis_exists ex_env_renewed (''d:lock:safe:'' @ ex_domain) = Inr False"
    by (simp add: ex_env_renewed_def ex_env_def)
  have r2: "validateDomain ex_env_renewed ex_domain (emit (RedisExists (''d:lock:safe:'' @ ex_domain)) initial) =
     (Return True, ?s1)"
    by (simp add: validateDomain_def caaDomains_def ex_env_renewed_def ex_env_def io_defs)
  have r3: "waitAcquireLock ex_env_renewed (''d:lock:op:'' @ ex_domain) = Inr 1"
    by (simp add: ex_env_renewed_def ex_env_def)
  have r4: "getRecord_reload ex_env_renewed (rec_id ex_rec) = Inr (Some ex_renewed)"
    by (simp add: ex_env_renewed_def ex_env_def)
  have r5: "ensureAcme ex_env_renewed ex_opts initial = (Return True, ?s0)"
    by (simp add: ensureAcme_def ensureAcme_enter_def ensureAcme_resume_def ex_env_renewed_def
        ex_env_def ex_opts_def initial_def emit_def)
  have r6: "getRecord_lookup ex_env_renewed (normalizeDomain ex_env_renewed (Some ex_domain)) = Inr (Some ex_rec)"
    by (simp add: ex_env_renewed_def ex_env_def)
  have r7: "date_gt (expires ex_renewed) (now_reload ex_env_renewed + RENEW_AFTER_REMAINING)"
    by (simp add: ex_env_renewed_def ex_env_def ex_renewed_def ex_now_def RENEW_AFTER_REMAINING_def)
  have r8: "releaseLock ex_env_renewed l = Inr ()" for l
    by (simp add: ex_env_renewed_def ex_env_def)
  note R = acquireCert_already_renewed [OF r1 r2 r3 r4 r5 r6]
  have A: "acquireCert ex_env_renewed ex_domain ex_opts ex_rec initial =
     (Return (Rec (Some ex_renewed)),
      initial\<lparr>trace := [RedisExists ''d:lock:safe:a.b.example.com'', JoiValidate ''a.b.example.com'',
                Log Info ''Domain validation for %s passed'',
                WaitAcquireLock ''d:lock:op:a.b.example.com'' 600000 180000,
                GetRecordById 7, ReleaseLock 1]\<rparr>)"
    apply (subst mp[OF conjunct1[OF R] r7])
    apply (simp add: r8 emit_def initial_def ex_domain_def ex_rec_def)
    done
  have g1: "redis_exists ex_env_gap (''d:lock:safe:'' @ ex_domain) = Inr False"
    by (simp add: ex_env_gap_def ex_env_def)
  have g2: "validateDomain ex_env_gap ex_domain (emit (RedisExists (''d:lock:safe:'' @ ex_domain)) initial) =
     (Return True, ?s1)"
    by (simp add: validateDomain_def caaDomains_def ex_env_gap_def ex_env_def io_defs)
  have g3: "waitAcquireLock ex_env_gap (''d:lock:op:'' @ ex_domain) = Inr 1"
    by (simp add: ex_env_gap_def ex_env_def)
  have g4: "getRecord_reload ex_env_gap (rec_id ex_rec) = Inr (Some ex_gap)"
    by (simp add: ex_env_gap_def ex_env_def)
  have g5: "ensureAcme ex_env_gap ex_opts initial = (Return True, ?s0)"
    by (simp add: ensureAcme_def ensureAcme_enter_def ensureAcme_resume_def ex_env_gap_def
        ex_env_def ex_opts_def initial_def emit_def)
  have g6: "getRecord_lookup ex_env_gap (normalizeDomain ex_env_gap (Some ex_domain)) = Inr (Some ex_gap)"
    by (simp add: ex_env_gap_def ex_env_def)
  have n: "normalizeDomain ex_env_gap (Some x) = x" for x
    by (simp add: ex_env_gap_def ex_env_def)
  have g7: "\<not> date_gt (expires ex_gap) (now_reload ex_env_gap + RENEW_AFTER_REMAINING)"
    "date_gt (expires ex_gap) (now_fresh ex_env_gap + 30 * 24 * 3600 * 1000)"
    by (simp_all add: ex_env_gap_def ex_env_def ex_gap_def ex_now_def RENEW_AFTER_REMAINING_def)
  have g8: "first_renewal_event ex_env_gap d ex_gap = CsrCreate ''KEY'' d" for d
    by (simp add: first_renewal_event_def ex_env_gap_def ex_env_def ex_gap_def ex_rec_def)
  note G = acquireCert_already_renewed [OF g1 g2 g3 g4 g5 g6]
  have B: "getCertificate ex_env_gap ex_domain ex_opts initial =
     (Return (Rec (Some ex_gap)),
      initial\<lparr>acmeInitialized := True,
        trace := [AcmeInit ''https://ca/dir'', GetRecordByServername ''a.b.example.com'']\<rparr>)"
    apply (subst mp[OF conjunct1[OF conjunct2[OF conjunct2[OF G]]] g7(2)])
    apply (simp add: n initial_def ex_domain_def)
    done
  from mp[OF conjunct1[OF conjunct2[OF G]] g7(1)] obtain evs where
    "trace (snd (acquireCert ex_env_gap ex_domain ex_opts ex_rec initial)) =
       trace ?s1 @
         [Log Info ''Domain validation for %s passed'',
          WaitAcquireLock (''d:lock:op:'' @ ex_domain) 600000 180000,
          GetRecordById (rec_id ex_rec),
          first_renewal_event ex_env_gap ex_domain ex_gap] @ evs"
    by blast
  then have C: "\<exists>evs. trace (snd (acquireCert ex_env_gap ex_domain ex_opts ex_rec initial)) =
      [RedisExists ''d:lock:safe:a.b.example.com'', JoiValidate ''a.b.example.com'',
       Log Info ''Domain validation for %s passed'',
       WaitAcquireLock ''d:lock:op:a.b.example.com'' 600000 180000,
       GetRecordById 7, CsrCreate ''KEY'' ''a.b.example.com''] @ evs"
    by (simp add: g8 emit_def initial_def ex_domain_def ex_rec_def)
  have D: "expires ex_gap = Some (ex_now + 30 * 24 * 3600 * 1000 + 5000)"
    "now_fresh ex_env_gap = ex_now" "now_reload ex_env_gap = ex_now"
    by (simp_all add: ex_gap_def ex_env_gap_def ex_env_def)
  show ?thesis using r7 A B C D by simp
qed

section \<open>Failures under the lock\<close>




text \<open>
  Claim C10. The fallback tests the record reloaded under the lock: if the reload
  yields no record, or a record without a certificate, and the rest of the \<open>try\<close>
  block throws, then \<open>acquireCert\<close> throws that error, whatever the record passed in
  carries. With no record reloaded, the error is the \<open>TypeError\<close> of reading
  \<open>expires\<close> on \<open>null\<close>.
\<close>

theorem acquireCert_degrade_tests_reloaded:
  assumes "redis_exists env (''d:lock:safe:'' @ domain) = Inr False"
    and "validateDomain env domain (emit (RedisExists (''d:lock:safe:'' @ domain)) s) = (Return ok, s1)"
    and "waitAcquireLock env (''d:lock:op:'' @ domain) = Inr lock"
    and "getRecord_reload env (rec_id certificateData) = Inr reloaded"
    and "\<not> has_cert reloaded"
    and "acquireCert_issue env domain acmeOptions reloaded
           (emit (GetRecordById (rec_id certificateData))
             (emit (WaitAcquireLock (''d:lock:op:'' @ domain) 600000 180000)
               (emit (Log Info ''Domain validation for %s passed'') s1))) = (Throw err, s3)"
  shows "fst (acquireCert env domain acmeOptions certificateData s) = Throw err
         \<and> (reloaded = None \<longrightarrow> err = TypeError)"
proof
  have "acquireCert_try env domain acmeOptions certificateData
           (emit (WaitAcquireLock (''d:lock:op:'' @ domain) 600000 180000)
             (emit (Log Info ''Domain validation for %s passed'') s1)) = ((reloaded, Throw err), s3)"
    using assms(4,6) by (simp add: acquireCert_try_def call_def)
  then show "fst (acquireCert env domain acmeOptions certificateData s) = Throw err"
    using assms(5)
    by (simp add: acquireCert_locked[OF assms(1-3)] try_finally_def acquireCert_try_catch_def
      acquireCert_catch_def set_failsafe_eq acquireCert_finally_eq io_bind_def io_try_def
      log_def ret_def throw_def split: sum.splits)
  show "reloaded = None \<longrightarrow> err = TypeError"
    using assms(6) by (auto simp: acquireCert_issue_def throw_def)
qed

theorem acquireCert_degrade_tests_reloaded_witness:
  "has_cert (Some ex_rec) \<and> getRecord_reload ex_env_gone (rec_id ex_rec) = Inr None \<and>
   fst (acquireCert ex_env_gone ex_domain ex_opts ex_rec initial) = Throw TypeError"
proof -
  have 1: "redis_exists ex_env_gone (''d:lock:safe:'' @ ex_domain) = Inr False"
    by (simp add: ex_env_gone_def ex_env_def)
  have 2: "validateDomain ex_env_gone ex_domain (emit (RedisExists (''d:lock:safe:'' @ ex_domain)) initial) =
     (Return True, emit (JoiValidate ex_domain) (emit (RedisExists (''d:lock:safe:'' @ ex_domain)) initial))"
    by (simp add: validateDomain_def caaDomains_def ex_env_gone_def ex_env_def io_defs)
  have 3: "waitAcquireLock ex_env_gone (''d:lock:op:'' @ ex_domain) = Inr 1"
    by (simp add: ex_env_gone_def ex_env_def)
  have 4: "getRecord_reload ex_env_gone (rec_id ex_rec) = Inr None"
    by (simp add: ex_env_gone_def ex_env_def)
  have 5: "\<not> has_cert None" by simp
  have 6: "acquireCert_issue ex_env_gone ex_domain ex_opts None
           (emit (GetRecordById (rec_id ex_rec))
             (emit (WaitAcquireLock (''d:lock:op:'' @ ex_domain) 600000 180000)
               (emit (Log Info ''Domain validation for %s passed'')
                 (emit (JoiValidate ex_domain) (emit (RedisExists (''d:lock:safe:'' @ ex_domain)) initial))))) =
        (Throw TypeError, (emit (GetRecordById (rec_id ex_rec))
             (emit (WaitAcquireLock (''d:lock:op:'' @ ex_domain) 600000 180000)
               (emit (Log Info ''Domain validation for %s passed'')
                 (emit (JoiValidate ex_domain) (emit (RedisExists (''d:lock:safe:'' @ ex_domain)) initial))))))"
    by (simp add: acquireCert_issue_def throw_def)
  show ?thesis
    using acquireCert_degrade_tests_reloaded [OF 1 2 3 4 5 6] 4
    by (simp add: ex_rec_def)
qed

section \<open>What the entry point can yield\<close>

lemma settlesD:
  "settles m Q E \<Longrightarrow> \<not> acmeInitializing s \<Longrightarrow> m s = (r, s') \<Longrightarrow>
     (case r of Return x \<Rightarrow> Q x | Throw e \<Rightarrow> E e | Hang \<Rightarrow> False) \<and> \<not> acmeInitializing s'"
  by (auto simp: settles_def split: outcome.splits dest!: spec[of _ s])

lemma acmeInitializing_emit [simp]: "acmeInitializing (emit ev s) = acmeInitializing s"
  by (simp add: emit_def)

lemma settles_ret: "Q x \<Longrightarrow> settles (ret x) Q E"
  by (simp add: settles_def ret_def)

lemma settles_throw: "E e \<Longrightarrow> settles (throw e) Q E"
  by (simp add: settles_def throw_def)

lemma settles_log: "Q () \<Longrightarrow> settles (log l msg) Q E"
  by (simp add: settles_def log_def)

lemma settles_call:
  "(\<And>x. r = Inr x \<Longrightarrow> Q x) \<Longrightarrow> (\<And>f. r = Inl f \<Longrightarrow> E (Opaque f)) \<Longrightarrow> settles (call ev r) Q E"
  by (cases r) (simp_all add: settles_def call_def)

lemma settles_pure_call:
  "(\<And>x. r = Inr x \<Longrightarrow> Q x) \<Longrightarrow> (\<And>f. r = Inl f \<Longrightarrow> E (Opaque f)) \<Longrightarrow> settles (pure_call r) Q E"
  by (cases r) (simp_all add: settles_def pure_call_def)

lemma settles_try:
  assumes "settles m P F" and "\<And>x. P x \<Longrightarrow> settles (f x) Q E" and "\<And>e. F e \<Longrightarrow> settles (h e) Q E"
  shows "settles (io_try m f h) Q E"
  unfolding settles_def
proof (intro allI impI)
  fix s :: pstate assume s: "\<not> acmeInitializing s"
  obtain r s' where m: "m s = (r, s')" by (cases "m s")
  from settlesD[OF assms(1) s m] show
    "case io_try m f h s of (Return x, s') \<Rightarrow> Q x \<and> \<not> acmeInitializing s'
       | (Throw e, s') \<Rightarrow> E e \<and> \<not> acmeInitializing s' | (Hang, s') \<Rightarrow> False"
    using assms(2,3) m by (cases r) (auto simp: io_try_def settles_def)
qed

lemma settles_bind:
  "settles m P E \<Longrightarrow> (\<And>x. P x \<Longrightarrow> settles (f x) Q E) \<Longrightarrow> settles (io_bind m f) Q E"
  unfolding io_bind_def by (erule settles_try) (auto intro: settles_throw)

lemma settles_weaken:
  "settles m Q E \<Longrightarrow> (\<And>x. Q x \<Longrightarrow> Q' x) \<Longrightarrow> (\<And>e. E e \<Longrightarrow> E' e) \<Longrightarrow> settles m Q' E'"
  unfolding settles_def by (auto split: outcome.splits prod.splits) blast+

lemma settles_bind_call:
  "(\<And>f. r = Inl f \<Longrightarrow> E (Opaque f)) \<Longrightarrow> (\<And>x. r = Inr x \<Longrightarrow> settles (k x) Q E)
     \<Longrightarrow> settles (io_bind (call ev r) k) Q E"
  by (rule settles_bind[where P = "\<lambda>x. r = Inr x"]) (auto intro: settles_call)

lemma settles_bind_pure_call:
  "(\<And>f. r = Inl f \<Longrightarrow> E (Opaque f)) \<Longrightarrow> (\<And>x. r = Inr x \<Longrightarrow> settles (k x) Q E)
     \<Longrightarrow> settles (io_bind (pure_call r) k) Q E"
  by (rule settles_bind[where P = "\<lambda>x. r = Inr x"]) (auto intro: settles_pure_call)

lemma settles_bind_log:
  "settles (k ()) Q E \<Longrightarrow> settles (io_bind (log l msg) k) Q E"
  by (rule settles_bind[where P = "\<lambda>x. True"]) (auto intro: settles_log)

lemma settles_finally:
  assumes "settles m Q E" and "settles fin (\<lambda>_. True) (\<lambda>_. True)"
  shows "settles (try_finally m fin) Q E"
  unfolding settles_def
proof (intro allI impI)
  fix s :: pstate assume s: "\<not> acmeInitializing s"
  obtain r s' where m: "m s = (r, s')" by (cases "m s")
  obtain r' s'' where f: "fin s' = (r', s'')" by (cases "fin s'")
  from settlesD[OF assms(1) s m] have 1: "(case r of Return x \<Rightarrow> Q x | Throw e \<Rightarrow> E e | Hang \<Rightarrow> False)"
    and 2: "\<not> acmeInitializing s'" by auto
  from settlesD[OF assms(2) 2 f] have "r' \<noteq> Hang" "\<not> acmeInitializing s''" by (auto split: outcome.splits)
  then show "case try_finally m fin s of (Return x, s') \<Rightarrow> Q x \<and> \<not> acmeInitializing s'
       | (Throw e, s') \<Rightarrow> E e \<and> \<not> acmeInitializing s' | (Hang, s') \<Rightarrow> False"
    using 1 m f by (cases r; cases r') (auto simp: try_finally_def)
qed

lemma settles_detached:
  assumes "settles m P F" and "\<And>e. F e \<Longrightarrow> settles (h e) (\<lambda>_. True) (\<lambda>_. True)"
  shows "settles (detached m h) (\<lambda>_. True) E"
  unfolding settles_def
proof (intro allI impI)
  fix s :: pstate assume s: "\<not> acmeInitializing s"
  obtain r s' where m: "m s = (r, s')" by (cases "m s")
  from settlesD[OF assms(1) s m] have 1: "(case r of Return x \<Rightarrow> P x | Throw e \<Rightarrow> F e | Hang \<Rightarrow> False)"
    and 2: "\<not> acmeInitializing s'" by auto
  show "case detached m h s of (Return x, s') \<Rightarrow> True \<and> \<not> acmeInitializing s'
       | (Throw e, s') \<Rightarrow> E e \<and> \<not> acmeInitializing s' | (Hang, s') \<Rightarrow> False"
  proof (cases r)
    case (Throw e)
    obtain r' s'' where h: "h e s' = (r', s'')" by (cases "h e s'")
    from 1 Throw have "F e" by simp
    from settlesD[OF assms(2)[OF this] 2 h] show ?thesis using m Throw h
      by (simp add: detached_def)
  qed (use 1 2 m in \<open>auto simp: detached_def\<close>)
qed

lemma acmeInitializing_fold_settle [simp]:
  "acmeInitializing (fold (settle v) ps s) = acmeInitializing s"
  by (induction ps arbitrary: s) (auto simp: settle_def)

lemma settles_ensureAcme: "settles (ensureAcme env acmeOptions) (\<lambda>_. True) opaque"
  by (auto simp: settles_def ensureAcme_def ensureAcme_enter_def ensureAcme_resume_def Let_def
      split: sum.splits)

lemma settles_getAcmeAccount:
  "settles (getAcmeAccount env acmeOptions) (\<lambda>a. a \<noteq> None) opaque"
  unfolding getAcmeAccount_def Let_def
  apply (rule settles_bind[OF settles_ensureAcme])
  apply (rule settles_bind_call, simp)
  apply (auto split: option.splits intro!: settles_ret settles_bind_log settles_bind_call settles_bind_pure_call)
  done

lemma settles_validateDomain:
  "settles (validateDomain env domain) (\<lambda>_. True) (\<lambda>e. e = InvalidDomain \<or> (\<exists>n. e = CaaMismatch n))"
  unfolding settles_def
proof (intro allI impI)
  fix s :: pstate assume s: "\<not> acmeInitializing s"
  let ?s0 = "emit (JoiValidate domain) s"
  let ?w = "walk_result ?s0 (caa_walk_spec env (label_suffixes (js_split domain)))"
  have w: "\<not> acmeInitializing (snd ?w)" "fst ?w \<noteq> Hang"
    "\<And>e. fst ?w = Throw e \<Longrightarrow> \<exists>n. e = CaaMismatch n"
    using s
      apply (simp_all add: walk_result_flag)
    apply (cases "caa_walk_spec env (label_suffixes (js_split domain))";
           cases "snd (caa_walk_spec env (label_suffixes (js_split domain)))"; auto)
    done
  show "case validateDomain env domain s of
          (Return x, s') \<Rightarrow> True \<and> \<not> acmeInitializing s'
        | (Throw e, s') \<Rightarrow> (e = InvalidDomain \<or> (\<exists>n. e = CaaMismatch n)) \<and> \<not> acmeInitializing s'
        | (Hang, s') \<Rightarrow> False"
    using s w
    by (cases ?w; cases "fst ?w")
       (auto simp: validateDomain_def io_bind_def io_try_def ret_def throw_def caa_loop_walk_all)
qed

lemma settles_set_failsafe: "settles (set_failsafe env k) (\<lambda>_. True) E"
  by (simp add: settles_def set_failsafe_eq split: sum.splits)

lemma settles_acquireCert_finally: "settles (acquireCert_finally env d l) (\<lambda>_. True) (\<lambda>_. True)"
  by (simp add: settles_def acquireCert_finally_eq split: sum.splits)

lemma settles_acquireCert_catch:
  "opaque err \<Longrightarrow>
     settles (acquireCert_catch env domain held err) (\<lambda>v. v = Rec held \<and> held \<noteq> None) opaque"
  unfolding acquireCert_catch_def
  apply (rule settles_bind[OF settles_set_failsafe])
  apply (cases held)
   apply (auto intro!: settles_bind_log settles_ret settles_throw)
  done

lemma settles_acquireCert_issue:
  "settles (acquireCert_issue env domain acmeOptions reloaded)
     (\<lambda>v. (v = Rec reloaded \<and> reloaded \<noteq> None)
          \<or> (\<exists>i y. getRecord_updated env i = Inr y \<and> v = Rec y)
          \<or> (\<exists>c. v = AcmeCert c)) opaque"
proof (cases reloaded)
  case None
  then show ?thesis by (simp add: acquireCert_issue_def settles_throw)
next
  case (Some certificateData)
  show ?thesis
    unfolding acquireCert_issue_def Some option.case Let_def
    apply (cases "date_gt (expires certificateData) (now_reload env + RENEW_AFTER_REMAINING)")
     apply (simp add: settles_ret)
    apply (subst if_not_P, assumption)
    apply (rule settles_bind[where P = "\<lambda>_. True"])
     apply (auto intro!: settles_bind_log settles_call settles_ret)[1]
    apply (rule settles_bind_pure_call, simp)
    apply (rule settles_bind_call, simp)
    apply (rule settles_bind[OF settles_getAcmeAccount])
    apply (auto split: option.splits intro!: settles_ret settles_bind_log settles_bind_call settles_bind_pure_call)
     apply blast+
    done
qed

text \<open>What \<open>acquireCert\<close> can hand back for a given record.\<close>

lemma settles_acquireCert_try_catch:
  "settles (acquireCert_try_catch env domain acmeOptions certificateData)
     (\<lambda>v. v = Rec (Some certificateData)
          \<or> (\<exists>x. getRecord_reload env (rec_id certificateData) = Inr (Some x) \<and> v = Rec (Some x))
          \<or> (\<exists>i y. getRecord_updated env i = Inr y \<and> v = Rec y)
          \<or> (\<exists>c. v = AcmeCert c)) opaque"
  unfolding settles_def
proof (intro allI impI)
  fix s :: pstate assume s: "\<not> acmeInitializing s"
  let ?Q = "\<lambda>v. v = Rec (Some certificateData)
          \<or> (\<exists>x. getRecord_reload env (rec_id certificateData) = Inr (Some x) \<and> v = Rec (Some x))
          \<or> (\<exists>i y. getRecord_updated env i = Inr y \<and> v = Rec y)
          \<or> (\<exists>c. v = AcmeCert c)"
  let ?s1 = "emit (GetRecordById (rec_id certificateData)) s"
  have s1: "\<not> acmeInitializing ?s1" using s by simp
  show "case acquireCert_try_catch env domain acmeOptions certificateData s of
          (Return x, s') \<Rightarrow> ?Q x \<and> \<not> acmeInitializing s'
        | (Throw e, s') \<Rightarrow> opaque e \<and> \<not> acmeInitializing s'
        | (Hang, s') \<Rightarrow> False"
  proof (cases "getRecord_reload env (rec_id certificateData)")
    case (Inl f)
    have "acquireCert_try_catch env domain acmeOptions certificateData s =
            acquireCert_catch env domain (Some certificateData) (Opaque f) ?s1"
      by (simp add: acquireCert_try_catch_def acquireCert_try_def call_def Inl)
    moreover obtain r s' where c: "acquireCert_catch env domain (Some certificateData) (Opaque f) ?s1 = (r, s')"
      by (cases "acquireCert_catch env domain (Some certificateData) (Opaque f) ?s1")
    moreover from settlesD[OF settles_acquireCert_catch s1 c]
    have "(case r of Return x \<Rightarrow> x = Rec (Some certificateData) | Throw e \<Rightarrow> opaque e | Hang \<Rightarrow> False)
            \<and> \<not> acmeInitializing s'" by (cases r) auto
    ultimately show ?thesis by (cases r) auto
  next
    case (Inr reloaded)
    obtain r s2 where i: "acquireCert_issue env domain acmeOptions reloaded ?s1 = (r, s2)"
      by (cases "acquireCert_issue env domain acmeOptions reloaded ?s1")
    from settlesD[OF settles_acquireCert_issue s1 i]
    have r: "case r of Return v \<Rightarrow> (v = Rec reloaded \<and> reloaded \<noteq> None)
          \<or> (\<exists>i y. getRecord_updated env i = Inr y \<and> v = Rec y)
          \<or> (\<exists>c. v = AcmeCert c) | Throw e \<Rightarrow> opaque e | Hang \<Rightarrow> False"
      and s2: "\<not> acmeInitializing s2" by auto
    show ?thesis
    proof (cases r)
      case (Return v)
      then have "acquireCert_try_catch env domain acmeOptions certificateData s = (Return v, s2)"
        by (simp add: acquireCert_try_catch_def acquireCert_try_def call_def Inr i)
      then show ?thesis using r s2 Return Inr by auto
    next
      case (Throw e)
      then have eq: "acquireCert_try_catch env domain acmeOptions certificateData s =
             acquireCert_catch env domain reloaded e s2"
        by (simp add: acquireCert_try_catch_def acquireCert_try_def call_def Inr i)
      obtain r' s' where c: "acquireCert_catch env domain reloaded e s2 = (r', s')"
        by (cases "acquireCert_catch env domain reloaded e s2")
      have "opaque e" using r Throw by simp
      from settlesD[OF settles_acquireCert_catch[OF this] s2 c]
      show ?thesis using eq c Inr by (cases r') auto
    next
      case Hang
      then show ?thesis using r by simp
    qed
  qed
qed

lemma settles_acquireCert:
  "settles (acquireCert env domain acmeOptions certificateData)
     (\<lambda>v. v = Rec (Some certificateData)
          \<or> (\<exists>x. getRecord_reload env (rec_id certificateData) = Inr (Some x) \<and> v = Rec (Some x))
          \<or> (\<exists>i y. getRecord_updated env i = Inr y \<and> v = Rec y)
          \<or> (\<exists>c. v = AcmeCert c)) opaque"
  unfolding acquireCert_def Let_def
  apply (rule settles_bind_call, simp)
  subgoal for blocked
    apply (cases blocked)
     apply (simp add: settles_bind_log settles_ret)
    apply simp
    apply (rule settles_try[where P = "\<lambda>_. True"
          and F = "\<lambda>e. e = InvalidDomain \<or> (\<exists>n. e = CaaMismatch n)"])
      apply (rule settles_bind[OF settles_validateDomain])
      apply (rule settles_log, simp)
     apply (rule settles_bind_call, simp)
     apply (rule settles_finally[OF settles_acquireCert_try_catch settles_acquireCert_finally])
    apply (rule settles_bind_log)
    apply (rule settles_ret, simp)
    done
  done

lemma acquired_outcome:
  assumes "v = Rec (Some certificateData)
          \<or> (\<exists>x. getRecord_reload env (rec_id certificateData) = Inr (Some x) \<and> v = Rec (Some x))
          \<or> (\<exists>i y. getRecord_updated env i = Inr y \<and> v = Rec y)
          \<or> (\<exists>c. v = AcmeCert c)"
  shows "(\<exists>c. v = Rec (Some c))
          \<or> (v = Rec None \<and> (\<exists>i. getRecord_updated env i = Inr None))
          \<or> (\<exists>c. v = AcmeCert c)"
proof -
  have "?thesis" if "getRecord_updated env i = Inr y" and "v = Rec y" for i y
    using that by (cases y) auto
  then show ?thesis using assms by blast
qed

lemma settles_getCertificate:
  "settles (getCertificate env domain acmeOptions)
     (\<lambda>v. (\<exists>c. v = Rec (Some c))
          \<or> (v = Rec None \<and> (\<exists>i. getRecord_updated env i = Inr None))
          \<or> (\<exists>c. v = AcmeCert c))
     (\<lambda>e. e = MissingCertificate \<or> opaque e)"
  unfolding getCertificate_def Let_def
  apply (rule settles_bind[OF settles_weaken[OF settles_ensureAcme]], simp, simp)
  apply (rule settles_bind_call, simp)
  subgoal for b found
    apply (cases found)
     apply (simp add: settles_throw)
    apply (simp split del: if_split)
    subgoal for certificateData
      apply (cases "date_gt (expires certificateData) (now_fresh env + 2592000000)")
       apply (simp add: settles_ret)
      apply (cases "date_gt (expires certificateData) (now_stale env)")
       apply simp
       apply (rule settles_bind[OF settles_detached[OF settles_acquireCert]])
        apply (rule settles_log, simp)
       apply (rule settles_ret, simp)
      apply simp
      apply (rule settles_weaken[OF settles_acquireCert])
       apply (erule acquired_outcome)
      apply simp
      done
    done
  done

text \<open>
  Claim C3, amended. Called with \<open>acmeInitializing\<close> unset (as it is at the start,
  and as every call leaves it), \<open>getCertificate\<close> settles, and it either returns a record of
  the store, or \<open>null\<close> when the re-read after a successful update finds no record,
  or the object the CA client resolved with, or it fails with \<open>missing_certificate\<close>
  or with an error that carries no code. It never returns \<open>false\<close> and never fails
  with \<open>invalid_domain\<close> or \<open>caa_mismatch\<close>.
\<close>

theorem getCertificate_outcome:
  assumes "\<not> acmeInitializing s" and "getCertificate env domain acmeOptions s = (r, s')"
  shows "((\<exists>c. r = Return (Rec (Some c)))
       \<or> (r = Return (Rec None) \<and> (\<exists>i. getRecord_updated env i = Inr None))
       \<or> (\<exists>c. r = Return (AcmeCert c))
       \<or> r = Throw MissingCertificate
       \<or> (\<exists>e. r = Throw e \<and> opaque e))
       \<and> \<not> acmeInitializing s'"
  using settlesD[OF settles_getCertificate assms] by (cases r) auto

theorem getCertificate_outcome_witness:
  "\<not> acmeInitializing initial \<and>
   getCertificate ex_env ex_domain ex_opts initial =
     (Return (Rec (Some ex_renewed)), snd (getCertificate ex_env ex_domain ex_opts initial)) \<and>
   ((\<exists>c. Return (Rec (Some ex_renewed)) = Return (Rec (Some c)))
       \<or> (Return (Rec (Some ex_renewed)) = Return (Rec None)
            \<and> (\<exists>i. getRecord_updated ex_env i = Inr None))
       \<or> (\<exists>c. Return (Rec (Some ex_renewed)) = Return (AcmeCert c))
       \<or> Return (Rec (Some ex_renewed)) = Throw MissingCertificate
       \<or> (\<exists>e. Return (Rec (Some ex_renewed)) = Throw e \<and> opaque e))"
proof -
  have 1: "\<not> acmeInitializing initial" by (simp add: initial_def)
  have "fst (getCertificate ex_env ex_domain ex_opts initial) = Return (Rec (Some ex_renewed))"
    by (simp add: ex_run_defs)
  then have 2: "getCertificate ex_env ex_domain ex_opts initial =
     (Return (Rec (Some ex_renewed)), snd (getCertificate ex_env ex_domain ex_opts initial))"
    by (metis prod.collapse)
  from getCertificate_outcome [OF 1 2] 1 2 show ?thesis by blast
qed

text \<open>
  That only records are returned (C3 as first stated) fails: with an expired record, a CA
  that issues and a store whose update reports no change, \<open>getCertificate\<close> returns
  the bare \<open>{cert, chain}\<close> object of the CA client.
\<close>

theorem getCertificate_update_failure_counterexample:
  "fst (getCertificate ex_env_update_fails ex_domain ex_opts initial) =
     Return (AcmeCert (Some ex_acme_cert))"
  by (simp add: ex_env_update_fails_def ex_run_defs)





section \<open>Concurrent callers of \<open>ensureAcme\<close> are not coalesced\<close>

text \<open>No step of any interleaving sets \<open>acmeInitializing\<close>; the queue is never entered.\<close>

lemma sched_step_flag:
  "\<not> acmeInitializing (proc c) \<Longrightarrow> \<not> acmeInitializing (proc (sched_step c st))"
  by (cases st)
     (auto simp: ensureAcme_enter_def ensureAcme_resume_def emit_def Let_def
       split: sum.splits prod.splits entered.splits outcome.splits if_splits)

lemma run_flag: "\<not> acmeInitializing (proc (run steps))"
proof -
  have "\<not> acmeInitializing (proc c) \<Longrightarrow> \<not> acmeInitializing (proc (foldl sched_step c steps))" for c
    by (induction steps arbitrary: c) (simp_all add: sched_step_flag)
  then show ?thesis by (simp add: run_def initial_def)
qed

text \<open>
  Claim C1 does not hold of the code. Two callers that arrive before the first
  \<open>acme.init\<close> has settled both call \<open>acme.init\<close>: two initialisations are under
  way at once, the second caller is not queued, and each caller gets the outcome of its
  own initialisation; here the first returns \<open>true\<close> and the second throws.
\<close>

theorem ensureAcme_concurrent_callers:
  "callers (run [Call o1, Call o2]) = [AwaitsInit, AwaitsInit]
   \<and> inits_in_flight (run [Call o1, Call o2]) = 2
   \<and> acmeInitPending (proc (run [Call o1, Call o2])) = []
   \<and> trace (proc (run [Call o1, Call o2])) =
        [AcmeInit (opt_directoryUrl o1), AcmeInit (opt_directoryUrl o2)]
   \<and> outcome_of (run [Call o1, Call o2, InitSettles 0 (Inr ()), InitSettles 1 (Inl f)]) 0
        = Some (Inr True)
   \<and> outcome_of (run [Call o1, Call o2, InitSettles 0 (Inr ()), InitSettles 1 (Inl f)]) 1
        = Some (Inl (Opaque f))"
  by (simp add: run_def initial_def ensureAcme_enter_def ensureAcme_resume_def emit_def
      inits_in_flight_def outcome_of_def Let_def)

end
